theory Spec2Isabelle
  imports Main
begin

section \<open>Python values and strings\<close>

text \<open>
  The program is two Python scripts, \<^verbatim>\<open>Appathon/Orchestrator.py\<close> (mapping
  inference followed by the transform) and \<^verbatim>\<open>Appathon/Eureka/orch.py\<close> (mapping
  inference alone). Both work on Python strings, on values decoded from JSON and on
  pandas data frames read from and written to CSV files.

  A Python \<^verbatim>\<open>str\<close> is modelled as a \<^typ>\<open>string\<close>; a \<^typ>\<open>char\<close> stands
  for the code point of the same number, so the strings of the model are the Python
  strings over the code points 0 to 255.
\<close>

text \<open>
  \<^verbatim>\<open>str.isspace\<close> on one character: the white space of the code points below 256 is
  tab, line feed, vertical tab, form feed, carriage return, the four separators 28 to 31,
  the space, NEL (133) and the no-break space (160).
\<close>

definition isspace :: "char \<Rightarrow> bool" where
  "isspace c = ((of_char c :: nat) \<in> set [9, 10, 11, 12, 13, 28, 29, 30, 31, 32, 133, 160])"

text \<open>\<^verbatim>\<open>str.strip()\<close>: white space is removed from both ends.\<close>

definition strip :: "string \<Rightarrow> string" where
  "strip s = rev (dropWhile isspace (rev (dropWhile isspace s)))"

text \<open>
  \<^verbatim>\<open>str.lower()\<close>: below 256 the upper-case letters are A to Z (65 to 90) and the
  Latin-1 letters 192 to 222 without the multiplication sign 215; each has its lower-case
  form 32 code points later.
\<close>

definition isupper :: "char \<Rightarrow> bool" where
  "isupper c =
     (let n = (of_char c :: nat)
      in (65 \<le> n \<and> n \<le> 90) \<or> (192 \<le> n \<and> n \<le> 222 \<and> n \<noteq> 215))"

definition lower_char :: "char \<Rightarrow> char" where
  "lower_char c = (if isupper c then char_of ((of_char c :: nat) + 32) else c)"

definition lower :: "string \<Rightarrow> string" where
  "lower s = map lower_char s"

text \<open>
  The numbers and truth values of Python and numpy: booleans, integers, the finite
  floating-point number \<open>m * 2 ^ e\<close> as \<open>NFloat m e\<close>, the two infinities
  (\<open>NInf True\<close> is the negative one) and NaN, which pandas uses for a missing value.
\<close>

datatype number =
    NBool bool
  | NInt int
  | NFloat int int
  | NInf bool
  | NaN

text \<open>
  The Python values that occur: what \<^verbatim>\<open>json.loads\<close> returns (\<^verbatim>\<open>None\<close>, numbers,
  strings, lists, dictionaries with string keys) and what a cell of a data frame read by
  \<^verbatim>\<open>pandas.read_csv\<close> holds (a string or a number).
\<close>

datatype pyobj =
    PNone
  | PNum number
  | PStr string
  | PList "pyobj list"
  | PDict "(string \<times> pyobj) list"

text \<open>
  A Python \<^verbatim>\<open>dict\<close> is an association list in insertion order. \<open>d[k] = v\<close>
  replaces the value of a key that is present, in place, and appends a new key at the
  end; \<open>dict(pairs)\<close> stores the pairs from left to right, so that the last value of
  a repeated key wins; \<open>k in d\<close> and \<open>d[k]\<close> are \<^const>\<open>map_of\<close>.
\<close>

type_synonym ('k, 'v) dict = "('k \<times> 'v) list"

fun setitem :: "('k, 'v) dict \<Rightarrow> 'k \<Rightarrow> 'v \<Rightarrow> ('k, 'v) dict" where
  "setitem [] k v = [(k, v)]"
| "setitem ((k', v') # d) k v = (if k' = k then (k, v) # d else (k', v') # setitem d k v)"

fun dict_of :: "('k \<times> 'v) list \<Rightarrow> ('k, 'v) dict \<Rightarrow> ('k, 'v) dict" where
  "dict_of [] d = d"
| "dict_of ((k, v) # ps) d = dict_of ps (setitem d k v)"

definition dict :: "('k \<times> 'v) list \<Rightarrow> ('k, 'v) dict" where
  "dict ps = dict_of ps []"

text \<open>
  The exceptions that the two scripts raise or let through, each with its argument:
  those of the scripts themselves and of pandas, \<^verbatim>\<open>JSONDecodeError\<close> and the other
  exceptions of \<^verbatim>\<open>json.loads\<close> (\<^verbatim>\<open>ValueError\<close> for an integer of too many
  digits, \<^verbatim>\<open>RecursionError\<close> for a value nested too deep), \<^verbatim>\<open>OSError\<close> for a file
  that cannot be written, and any other exception, of the client of the language model
  for one, under its class name.
\<close>

datatype error =
    FileNotFoundError string
  | EmptyDataError string
  | KeyError string
  | ValueError string
  | JSONDecodeError string
  | RecursionError string
  | OSError string
  | OtherError string

section \<open>The collaborators\<close>

text \<open>
  What the scripts call and do not define is a parameter of the model.
  \<^item> \<open>llm\<close>: the language model behind \<^verbatim>\<open>llm.invoke\<close>. It gets the number of the call
    and what the prompt is built from, and returns the content of its response or the
    exception raised; the same prompt may get another answer at another call.
  \<^item> \<open>json_loads\<close>: \<^verbatim>\<open>json.loads\<close>, the decoded value or the exception raised.
  \<^item> \<open>py_str\<close>: Python's \<^verbatim>\<open>str\<close> on a value that is not a string.
  \<^item> \<open>convert_column\<close>: the type inference of \<^verbatim>\<open>pandas.read_csv\<close> on the tokens of
    one column. For a column that pandas turns into numbers or booleans it gives the
    conversion of that column, from a token to its value there (NaN for a missing
    value); for a column that keeps its tokens as strings it gives \<open>None\<close>.
  \<^item> \<open>row_values\<close>: the cast that \<^verbatim>\<open>df.iloc[0]\<close> applies to the cells of a row when
    it puts them into one series (integers next to floating-point numbers become
    floating-point numbers).
  \<^item> \<open>writable\<close>: whether a file can be created or replaced at a path (the directory of
    the path exists and may be written to).
\<close>

datatype prompt =
    MatchField string "(string, string) dict"
  | MatchAll "pyobj list" "(pyobj, pyobj) dict"

record env =
  llm :: "nat \<Rightarrow> prompt \<Rightarrow> error + string"
  json_loads :: "string \<Rightarrow> error + pyobj"
  py_str :: "pyobj \<Rightarrow> string"
  convert_column :: "string list \<Rightarrow> (string \<Rightarrow> number) option"
  row_values :: "pyobj list \<Rightarrow> pyobj list"
  writable :: "string \<Rightarrow> bool"

text \<open>\<^verbatim>\<open>str(value)\<close>: a string is its own text.\<close>

definition str_of :: "env \<Rightarrow> pyobj \<Rightarrow> string" where
  "str_of e v = (case v of PStr s \<Rightarrow> s | _ \<Rightarrow> py_str e v)"

section \<open>The pandas calls\<close>

text \<open>
  A CSV file is held as pandas tokenises it: the columns from left to right, each with
  its header token and the tokens of its data rows from top to bottom (the rows of a
  file are rectangular, and a header token is the name pandas gives the column, which
  for a repeated or blank header is the name after pandas has made it unique). A file of
  no columns is the file without a header line. The file system maps a path to the file
  there.
\<close>

type_synonym csv = "(string \<times> string list) list"

type_synonym filesystem = "string \<Rightarrow> csv option"

text \<open>
  A data frame is its columns, each a label and its cells. Labels read from a file are
  strings; \<^verbatim>\<open>rename\<close> can put any value in their place.
\<close>

type_synonym 'l frame = "('l \<times> pyobj list) list"

text \<open>The tokens \<^verbatim>\<open>read_csv\<close> reads as the missing value (its default \<^verbatim>\<open>na_values\<close>).\<close>

definition na_values :: "string list" where
  "na_values =
     ['''', ''#N/A'', ''#N/A N/A'', ''#NA'', ''-1.#IND'', ''-1.#QNAN'', ''-NaN'', ''-nan'',
      ''1.#IND'', ''1.#QNAN'', ''<NA>'', ''N/A'', ''NA'', ''NULL'', ''NaN'', ''None'',
      ''n/a'', ''nan'', ''null'']"

text \<open>
  The cells of one column: the values of its conversion where pandas converts the
  column, and otherwise the tokens as strings, with NaN at the missing-value tokens.
\<close>

definition column_values :: "env \<Rightarrow> string list \<Rightarrow> pyobj list" where
  "column_values e toks =
     (case convert_column e toks of
        Some conversion \<Rightarrow> map (\<lambda>t. PNum (conversion t)) toks
      | None \<Rightarrow> map (\<lambda>t. if t \<in> set na_values then PNum NaN else PStr t) toks)"

text \<open>
  \<^verbatim>\<open>pd.read_csv(path)\<close>: FileNotFoundError when there is no file, EmptyDataError
  when the file has no columns.
\<close>

definition read_csv :: "env \<Rightarrow> filesystem \<Rightarrow> string \<Rightarrow> error + string frame" where
  "read_csv e fs path =
     (case fs path of
        None \<Rightarrow> Inl (FileNotFoundError path)
      | Some [] \<Rightarrow> Inl (EmptyDataError ''No columns to parse from file'')
      | Some (c # cs) \<Rightarrow> Inr (map (\<lambda>(h, toks). (h, column_values e toks)) (c # cs)))"

text \<open>
  \<^verbatim>\<open>to_csv(path, index=False)\<close> writes a label or a cell that is a string as it is,
  a missing value (\<^verbatim>\<open>None\<close>, NaN) as the empty token and any other value as
  \<^verbatim>\<open>str\<close> prints it. It raises OSError, and writes nothing, where the file cannot be
  written.
\<close>

definition cell_text :: "env \<Rightarrow> pyobj \<Rightarrow> string" where
  "cell_text e v =
     (case v of
        PStr s \<Rightarrow> s
      | PNone \<Rightarrow> []
      | PNum n \<Rightarrow> (case n of NaN \<Rightarrow> [] | _ \<Rightarrow> py_str e v)
      | _ \<Rightarrow> py_str e v)"

definition csv_of :: "env \<Rightarrow> pyobj frame \<Rightarrow> csv" where
  "csv_of e df = map (\<lambda>(l, cells). (cell_text e l, map (cell_text e) cells)) df"

definition to_csv :: "env \<Rightarrow> filesystem \<Rightarrow> pyobj frame \<Rightarrow> string \<Rightarrow> error + filesystem" where
  "to_csv e fs df path =
     (if writable e path then Inr (fs(path \<mapsto> csv_of e df)) else Inl (OSError path))"

text \<open>\<^verbatim>\<open>df[name]\<close>: the cells of the column of that label, KeyError without one.\<close>

definition getcol :: "'l frame \<Rightarrow> 'l \<Rightarrow> pyobj list option" where
  "getcol df name = map_of df name"

text \<open>
  \<^verbatim>\<open>df.rename(columns=mapping)\<close>: a label that is a key of the mapping is replaced by
  the value there, any other label and every cell stays.
\<close>

definition rename :: "(pyobj, pyobj) dict \<Rightarrow> string frame \<Rightarrow> pyobj frame" where
  "rename mapping df =
     map (\<lambda>(h, cells).
            (case map_of mapping (PStr h) of Some t \<Rightarrow> t | None \<Rightarrow> PStr h, cells)) df"

text \<open>
  \<^verbatim>\<open>df.empty\<close> (no column or no row) and \<^verbatim>\<open>df.iloc[0].tolist()\<close> (the first cell of
  every column, cast to the type of one series).
\<close>

definition df_empty :: "'l frame \<Rightarrow> bool" where
  "df_empty df = (case df of [] \<Rightarrow> True | (l, cells) # _ \<Rightarrow> cells = [])"

definition iloc0 :: "env \<Rightarrow> 'l frame \<Rightarrow> pyobj list" where
  "iloc0 e df =
     row_values e (map (\<lambda>(l, cells). case cells of [] \<Rightarrow> PNum NaN | x # _ \<Rightarrow> x) df)"

section \<open>Orchestrator.py\<close>

record FieldMappingState =
  field_maps :: "(string, (string, pyobj) dict) dict"
  analysis_complete :: bool
  etl_complete :: bool
  current_vendor :: string
  vendor_headers :: "string list"
  vendor_samples :: "pyobj list"
  target_headers :: "string list"
  target_samples :: "pyobj list"
  transformed_data :: string

text \<open>
  \<^verbatim>\<open>read_csv_schema\<close> (lines 34 to 41): the headers, the first row or one empty string
  per header, and the frame.
\<close>

definition read_csv_schema ::
  "env \<Rightarrow> filesystem \<Rightarrow> string \<Rightarrow> error + (string list \<times> pyobj list \<times> string frame)" where
  "read_csv_schema e fs file_path =
     (case read_csv e fs file_path of
        Inl err \<Rightarrow> Inl err
      | Inr df \<Rightarrow>
          (let headers = map fst df;
               sample_row = (if \<not> df_empty df then iloc0 e df
                             else replicate (length headers) (PStr []))
           in Inr (headers, sample_row, df)))"

text \<open>
  The body of the loop of \<^verbatim>\<open>analyze_fields\<close> (lines 53 to 66) for the vendor field of
  position \<open>i\<close>: one call of the language model (an exception of the call leaves the
  function), the response decoded, and the entry stored when the decoded value is a
  dictionary with the vendor field as a key. The handler of line 65 catches
  \<^verbatim>\<open>JSONDecodeError\<close> and prints; any other exception of \<^verbatim>\<open>json.loads\<close> leaves the
  function.
\<close>

definition match_field ::
  "env \<Rightarrow> (string, string) dict \<Rightarrow> nat \<Rightarrow> string \<Rightarrow> (string, pyobj) dict
     \<Rightarrow> error + (string, pyobj) dict" where
  "match_field e targets i vendor_field field_mappings =
     (case llm e i (MatchField vendor_field targets) of
        Inl err \<Rightarrow> Inl err
      | Inr content \<Rightarrow>
          (case json_loads e content of
             Inl err \<Rightarrow>
               (case err of JSONDecodeError msg \<Rightarrow> Inr field_mappings | _ \<Rightarrow> Inl err)
           | Inr decoded \<Rightarrow>
               (case decoded of
                  PDict mapping \<Rightarrow>
                    (case map_of mapping vendor_field of
                       Some target \<Rightarrow> Inr (setitem field_mappings vendor_field target)
                     | None \<Rightarrow> Inr field_mappings)
                | _ \<Rightarrow> Inr field_mappings)))"

text \<open>The loop (line 52) over the vendor fields that are left, from position \<open>i\<close> on.\<close>

fun match_loop ::
  "env \<Rightarrow> (string, string) dict \<Rightarrow> nat \<Rightarrow> string list \<Rightarrow> (string, pyobj) dict
     \<Rightarrow> error + (string, pyobj) dict" where
  "match_loop e targets i [] field_mappings = Inr field_mappings"
| "match_loop e targets i (vendor_field # rest) field_mappings =
     (case match_field e targets i vendor_field field_mappings of
        Inl err \<Rightarrow> Inl err
      | Inr field_mappings1 \<Rightarrow> match_loop e targets (Suc i) rest field_mappings1)"

text \<open>
  Lines 71 and 72: the mapping as a frame of the columns \<^verbatim>\<open>vendor_field\<close> and
  \<^verbatim>\<open>target_field\<close>, one row per entry, written to the vendor's mapping file.
\<close>

definition mapping_file_of :: "string \<Rightarrow> string" where
  "mapping_file_of vendor = vendor @ ''_mappings.csv''"

definition mapping_frame :: "(string, pyobj) dict \<Rightarrow> pyobj frame" where
  "mapping_frame field_mappings =
     [(PStr ''vendor_field'', map (\<lambda>(k, v). PStr k) field_mappings),
      (PStr ''target_field'', map (\<lambda>(k, v). v) field_mappings)]"

definition save_mapping ::
  "env \<Rightarrow> filesystem \<Rightarrow> string \<Rightarrow> (string, pyobj) dict \<Rightarrow> error + filesystem" where
  "save_mapping e fs vendor field_mappings =
     to_csv e fs (mapping_frame field_mappings) (mapping_file_of vendor)"

text \<open>
  \<^verbatim>\<open>analyze_fields\<close> (lines 44 to 76). \<open>target_dict\<close> is the dictionary of
  lines 49 and 55 that every prompt carries, from the target fields to the text of
  their samples. The result is the new state or the exception raised, together with the
  file system left behind.
\<close>

definition target_dict :: "env \<Rightarrow> FieldMappingState \<Rightarrow> (string, string) dict" where
  "target_dict e state =
     (let target_fields = target_headers state;
          target_definitions = map (str_of e) (target_samples state)
      in dict (zip target_fields target_definitions))"

definition analyze_fields ::
  "env \<Rightarrow> FieldMappingState \<Rightarrow> filesystem \<Rightarrow> (error + FieldMappingState) \<times> filesystem" where
  "analyze_fields e state fs =
     (let vendor_fields = vendor_headers state
      in case match_loop e (target_dict e state) 0 vendor_fields [] of
           Inl err \<Rightarrow> (Inl err, fs)
         | Inr field_mappings \<Rightarrow>
             (let state1 = state\<lparr>field_maps :=
                     setitem (field_maps state) (current_vendor state) field_mappings\<rparr>
              in case save_mapping e fs (current_vendor state) field_mappings of
                   Inl err \<Rightarrow> (Inl err, fs)
                 | Inr fs1 \<Rightarrow> (Inr (state1\<lparr>analysis_complete := True\<rparr>), fs1)))"

text \<open>
  Lines 92 and 94: the mapping file read back and turned into a dictionary from the
  cells of \<^verbatim>\<open>vendor_field\<close> to the cells of \<^verbatim>\<open>target_field\<close>.
\<close>

definition load_mapping :: "env \<Rightarrow> filesystem \<Rightarrow> string \<Rightarrow> error + (pyobj, pyobj) dict" where
  "load_mapping e fs mapping_file =
     (case read_csv e fs mapping_file of
        Inl err \<Rightarrow> Inl err
      | Inr mapping_df \<Rightarrow>
          (case getcol mapping_df ''vendor_field'' of
             None \<Rightarrow> Inl (KeyError ''vendor_field'')
           | Some ks \<Rightarrow>
               (case getcol mapping_df ''target_field'' of
                  None \<Rightarrow> Inl (KeyError ''target_field'')
                | Some vs \<Rightarrow> Inr (dict (zip ks vs)))))"

text \<open>\<^verbatim>\<open>perform_etl\<close> (lines 80 to 102).\<close>

definition perform_etl ::
  "env \<Rightarrow> FieldMappingState \<Rightarrow> filesystem \<Rightarrow> (error + FieldMappingState) \<times> filesystem" where
  "perform_etl e state fs =
     (let vendor_file = ''vendor.csv'';
          mapping_file = mapping_file_of (current_vendor state);
          output_file = current_vendor state @ ''_transformed.csv''
      in if fs vendor_file = None then (Inl (FileNotFoundError vendor_file), fs)
         else if fs mapping_file = None then (Inl (FileNotFoundError mapping_file), fs)
         else
           (case read_csv e fs vendor_file of
              Inl err \<Rightarrow> (Inl err, fs)
            | Inr vendor_df \<Rightarrow>
                (case load_mapping e fs mapping_file of
                   Inl err \<Rightarrow> (Inl err, fs)
                 | Inr field_mapping \<Rightarrow>
                     (let transformed_df = rename field_mapping vendor_df
                      in case to_csv e fs transformed_df output_file of
                           Inl err \<Rightarrow> (Inl err, fs)
                         | Inr fs1 \<Rightarrow>
                             (Inr (state\<lparr>etl_complete := True,
                                         transformed_data := output_file\<rparr>), fs1)))))"

text \<open>
  The workflow of \<^verbatim>\<open>generate_mapping_template\<close> (lines 110 to 124): two nodes, the
  edges \<^verbatim>\<open>analyze_fields\<close> to \<^verbatim>\<open>perform_etl\<close> and \<^verbatim>\<open>perform_etl\<close> to
  \<^verbatim>\<open>END\<close>, and \<^verbatim>\<open>analyze_fields\<close> as the entry point.
\<close>

datatype node = Node_analyze_fields | Node_perform_etl | END

definition entry_point :: node where
  "entry_point = Node_analyze_fields"

fun edge :: "node \<Rightarrow> node" where
  "edge Node_analyze_fields = Node_perform_etl"
| "edge Node_perform_etl = END"
| "edge END = END"

fun run_node ::
  "env \<Rightarrow> node \<Rightarrow> FieldMappingState \<Rightarrow> filesystem
     \<Rightarrow> (error + FieldMappingState) \<times> filesystem" where
  "run_node e Node_analyze_fields state fs = analyze_fields e state fs"
| "run_node e Node_perform_etl state fs = perform_etl e state fs"
| "run_node e END state fs = (Inr state, fs)"




fun stage :: "node \<Rightarrow> nat" where
  "stage Node_analyze_fields = 0"
| "stage Node_perform_etl = 1"
| "stage END = 2"

text \<open>\<^verbatim>\<open>chain.invoke(state)\<close>: the nodes are run along the edges until \<^verbatim>\<open>END\<close>.\<close>

function chain_invoke ::
  "env \<Rightarrow> node \<Rightarrow> FieldMappingState \<Rightarrow> filesystem
     \<Rightarrow> (error + FieldMappingState) \<times> filesystem" where
  "chain_invoke e n state fs =
     (if n = END then (Inr state, fs)
      else case run_node e n state fs of
             (Inl err, fs1) \<Rightarrow> (Inl err, fs1)
           | (Inr state1, fs1) \<Rightarrow> chain_invoke e (edge n) state1 fs1)"
  by pat_completeness auto
termination
proof (relation "measure (\<lambda>(e, n, state, fs). 2 - stage n)")
  show "wf (measure (\<lambda>(e, n, state, fs). 2 - stage n))"
    by simp
next
  fix e :: env and n :: node and state :: FieldMappingState and fs :: filesystem
  assume "n \<noteq> END"
  then have "2 - stage (edge n) < 2 - stage n"
    by (cases n) simp_all
  then show "((e, edge n, state1, fs1), (e, n, state, fs))
               \<in> measure (\<lambda>(e, n, state, fs). 2 - stage n)" for state1 fs1
    by simp
qed

declare chain_invoke.simps [simp del]

text \<open>
  Lines 127 to 144: both schemas are read, the vendor headers are stripped and
  lower-cased, and the state the workflow starts from is built.
\<close>

definition initial_state ::
  "env \<Rightarrow> filesystem \<Rightarrow> string \<Rightarrow> string \<Rightarrow> string \<Rightarrow> error + FieldMappingState" where
  "initial_state e fs vendor_file target_file vendor_name =
     (case read_csv_schema e fs vendor_file of
        Inl err \<Rightarrow> Inl err
      | Inr (vendor_headers0, vendor_samples0, vendor_df) \<Rightarrow>
          (case read_csv_schema e fs target_file of
             Inl err \<Rightarrow> Inl err
           | Inr (target_headers0, target_samples0, target_df) \<Rightarrow>
               Inr \<lparr>field_maps = [],
                    analysis_complete = False,
                    etl_complete = False,
                    current_vendor = vendor_name,
                    vendor_headers = map (\<lambda>h. lower (strip h)) vendor_headers0,
                    vendor_samples = vendor_samples0,
                    target_headers = target_headers0,
                    target_samples = target_samples0,
                    transformed_data = []\<rparr>))"

text \<open>
  \<^verbatim>\<open>generate_mapping_template\<close> (lines 106 to 148): the path of the transformed file,
  or the exception that ended the run, with the file system left behind.
\<close>

definition generate_mapping_template ::
  "env \<Rightarrow> filesystem \<Rightarrow> string \<Rightarrow> string \<Rightarrow> string \<Rightarrow> (error + string) \<times> filesystem" where
  "generate_mapping_template e fs vendor_file target_file vendor_name =
     (case initial_state e fs vendor_file target_file vendor_name of
        Inl err \<Rightarrow> (Inl err, fs)
      | Inr state \<Rightarrow>
          (case chain_invoke e entry_point state fs of
             (Inl err, fs1) \<Rightarrow> (Inl err, fs1)
           | (Inr final_state, fs1) \<Rightarrow> (Inr (transformed_data final_state), fs1)))"

section \<open>Eureka/orch.py\<close>

record EurekaState =
  field_maps_eureka :: "(string, pyobj) dict"
  analysis_complete_eureka :: bool
  current_vendor_eureka :: string
  vendor_fields :: "pyobj list"
  target_descriptions :: "(pyobj, pyobj) dict"

text \<open>\<^verbatim>\<open>read_vendor_schema\<close> (lines 27 to 30): the cells of the column \<^verbatim>\<open>Field Name\<close>.\<close>

definition read_vendor_schema :: "env \<Rightarrow> filesystem \<Rightarrow> string \<Rightarrow> error + pyobj list" where
  "read_vendor_schema e fs file_path =
     (case read_csv e fs file_path of
        Inl err \<Rightarrow> Inl err
      | Inr df \<Rightarrow>
          (case getcol df ''Field Name'' of
             None \<Rightarrow> Inl (KeyError ''Field Name'')
           | Some names \<Rightarrow> Inr names))"

text \<open>\<^verbatim>\<open>read_customer_schema\<close> (lines 32 to 35).\<close>

definition read_customer_schema ::
  "env \<Rightarrow> filesystem \<Rightarrow> string \<Rightarrow> error + (pyobj, pyobj) dict" where
  "read_customer_schema e fs file_path =
     (case read_csv e fs file_path of
        Inl err \<Rightarrow> Inl err
      | Inr df \<Rightarrow>
          (case getcol df ''Field Name'' of
             None \<Rightarrow> Inl (KeyError ''Field Name'')
           | Some names \<Rightarrow>
               (case getcol df ''Business Definition'' of
                  None \<Rightarrow> Inl (KeyError ''Business Definition'')
                | Some definitions \<Rightarrow> Inr (dict (zip names definitions)))))"

text \<open>
  \<^verbatim>\<open>analyze_fields\<close> of this script (lines 38 to 68): one call for all the vendor
  fields; a response that is no JSON, or no dictionary, raises ValueError.
\<close>

definition analyze_fields_eureka ::
  "env \<Rightarrow> EurekaState \<Rightarrow> filesystem \<Rightarrow> (error + EurekaState) \<times> filesystem" where
  "analyze_fields_eureka e state fs =
     (case llm e 0 (MatchAll (vendor_fields state) (target_descriptions state)) of
        Inl err \<Rightarrow> (Inl err, fs)
      | Inr content \<Rightarrow>
          (case json_loads e content of
             Inl err \<Rightarrow>
               (case err of
                  JSONDecodeError msg \<Rightarrow> (Inl (ValueError ''Invalid JSON response from LLM''), fs)
                | _ \<Rightarrow> (Inl err, fs))
           | Inr decoded \<Rightarrow>
               (case decoded of
                  PDict mappings \<Rightarrow>
                    (let mapping_file = current_vendor_eureka state @ ''_mappings.csv'';
                         df = [(PStr ''Vendor Field'', map (\<lambda>(k, v). PStr k) mappings),
                               (PStr ''Customer Field'', map (\<lambda>(k, v). v) mappings)]
                     in case to_csv e fs df mapping_file of
                          Inl err \<Rightarrow> (Inl err, fs)
                        | Inr fs1 \<Rightarrow>
                            (Inr (state\<lparr>field_maps_eureka := mappings,
                                        analysis_complete_eureka := True\<rparr>), fs1))
                | _ \<Rightarrow> (Inl (ValueError ''Response is not a valid dictionary.''), fs))))"

text \<open>
  Lines 82 to 92 of \<^verbatim>\<open>generate_mapping_template\<close> of this script: the state its one
  node starts from.
\<close>

definition initial_state_eureka ::
  "env \<Rightarrow> filesystem \<Rightarrow> string \<Rightarrow> string \<Rightarrow> string \<Rightarrow> error + EurekaState" where
  "initial_state_eureka e fs vendor_file customer_file vendor_name =
     (case read_vendor_schema e fs vendor_file of
        Inl err \<Rightarrow> Inl err
      | Inr vendor_fields0 \<Rightarrow>
          (case read_customer_schema e fs customer_file of
             Inl err \<Rightarrow> Inl err
           | Inr target_schema \<Rightarrow>
               Inr \<lparr>field_maps_eureka = [],
                    analysis_complete_eureka = False,
                    current_vendor_eureka = vendor_name,
                    vendor_fields = vendor_fields0,
                    target_descriptions = target_schema\<rparr>))"

text \<open>\<^verbatim>\<open>generate_mapping_template\<close> of this script (lines 71 to 96).\<close>

definition generate_mapping_template_eureka ::
  "env \<Rightarrow> filesystem \<Rightarrow> string \<Rightarrow> string \<Rightarrow> string \<Rightarrow> (error + string) \<times> filesystem" where
  "generate_mapping_template_eureka e fs vendor_file customer_file vendor_name =
     (case initial_state_eureka e fs vendor_file customer_file vendor_name of
        Inl err \<Rightarrow> (Inl err, fs)
      | Inr state \<Rightarrow>
          (case analyze_fields_eureka e state fs of
             (Inl err, fs1) \<Rightarrow> (Inl err, fs1)
           | (Inr final_state, fs1) \<Rightarrow> (Inr (vendor_name @ ''_mappings.csv''), fs1)))"

section \<open>Notions of the specification\<close>


text \<open>
  The outcome of one inference call, read off the call and the decoding alone: matched
  with a target when the response decodes to a dictionary with the vendor field as a
  key; skipped when \<^verbatim>\<open>json.loads\<close> raises \<^verbatim>\<open>JSONDecodeError\<close>, or the decoded
  value is no dictionary, or the dictionary has no such key (the failing calls of the
  specification); raised when the call, or \<^verbatim>\<open>json.loads\<close> with another exception,
  raises.
\<close>

datatype outcome = Matched pyobj | Skipped | Raised error

definition call_outcome :: "env \<Rightarrow> (string, string) dict \<Rightarrow> nat \<Rightarrow> string \<Rightarrow> outcome" where
  "call_outcome e targets i vendor_field =
     (case llm e i (MatchField vendor_field targets) of
        Inl err \<Rightarrow> Raised err
      | Inr content \<Rightarrow>
          (case json_loads e content of
             Inl (JSONDecodeError msg) \<Rightarrow> Skipped
           | Inl err \<Rightarrow> Raised err
           | Inr (PDict mapping) \<Rightarrow>
               (case map_of mapping vendor_field of
                  Some target \<Rightarrow> Matched target
                | None \<Rightarrow> Skipped)
           | Inr decoded \<Rightarrow> Skipped))"

text \<open>
  Over the calls of the loop for the given fields, the first of them being call number
  \<open>i\<close>: whether none raises, how many are skipped, and the fields that are matched.
\<close>

fun none_raises :: "env \<Rightarrow> (string, string) dict \<Rightarrow> nat \<Rightarrow> string list \<Rightarrow> bool" where
  "none_raises e targets i [] = True"
| "none_raises e targets i (vendor_field # rest) =
     (case call_outcome e targets i vendor_field of
        Raised err \<Rightarrow> False
      | _ \<Rightarrow> none_raises e targets (Suc i) rest)"


fun matched_fields :: "env \<Rightarrow> (string, string) dict \<Rightarrow> nat \<Rightarrow> string list \<Rightarrow> string list" where
  "matched_fields e targets i [] = []"
| "matched_fields e targets i (vendor_field # rest) =
     (case call_outcome e targets i vendor_field of
        Matched target \<Rightarrow> vendor_field # matched_fields e targets (Suc i) rest
      | _ \<Rightarrow> matched_fields e targets (Suc i) rest)"

text \<open>
  What the transform stage leaves behind: the exception, or the path of the output file
  with the contents written there.
\<close>

definition etl_output ::
  "env \<Rightarrow> FieldMappingState \<Rightarrow> filesystem \<Rightarrow> error + (string \<times> csv option)" where
  "etl_output e state fs =
     (case perform_etl e state fs of
        (Inl err, fs1) \<Rightarrow> Inl err
      | (Inr state1, fs1) \<Rightarrow> Inr (transformed_data state1, fs1 (transformed_data state1)))"


text \<open>
  A field name is trimmed when it has no white space at either end, and lower-cased when
  it has no upper-case letter.
\<close>

definition trimmed :: "string \<Rightarrow> bool" where
  "trimmed s = (s = [] \<or> (\<not> isspace (hd s) \<and> \<not> isspace (last s)))"

definition lower_cased :: "string \<Rightarrow> bool" where
  "lower_cased s = (list_all (\<lambda>c. \<not> isupper c) s)"

section \<open>A scenario\<close>

text \<open>
  Concrete collaborators and files. \<open>json_object k v\<close> is the JSON text of the object
  with the one key \<open>k\<close> and the string \<open>v\<close> as its value, and \<open>deep_list\<close> the JSON
  text of a list nested a thousand deep. The language model answers three vendor fields
  with such an object, the field \<^verbatim>\<open>misc\<close> with an empty list, the field \<^verbatim>\<open>deep\<close>
  with the deep list and every other field with a sentence; \<open>demo_json_loads\<close> gives
  what \<^verbatim>\<open>json.loads\<close> gives on these responses. No column of the files below holds
  numbers or booleans, so the type inference converts no column and the cast of a row
  changes nothing. Files can be written in the working directory, which has no
  sub-directory.
\<close>

definition json_object :: "string \<Rightarrow> string \<Rightarrow> string" where
  "json_object k v =
     ''{'' @ [CHR 0x22] @ k @ [CHR 0x22] @ '': '' @ [CHR 0x22] @ v @ [CHR 0x22] @ ''}''"

definition deep_list :: string where
  "deep_list = replicate 1000 (CHR ''['') @ replicate 1000 (CHR '']'')"

definition demo_answers :: "(string \<times> string) list" where
  "demo_answers =
     [(''cust_nm'', ''customer_name''), (''addr1'', ''address_line_1''),
      (''name'', ''customer_name'')]"

definition demo_llm :: "nat \<Rightarrow> prompt \<Rightarrow> error + string" where
  "demo_llm i p =
     (case p of
        MatchField vendor_field targets \<Rightarrow>
          (case map_of demo_answers vendor_field of
             Some target \<Rightarrow> Inr (json_object vendor_field target)
           | None \<Rightarrow>
               (if vendor_field = ''misc'' then Inr ''[]''
                else if vendor_field = ''deep'' then Inr deep_list
                else Inr ''I could not find a matching field.''))
      | MatchAll names targets \<Rightarrow> Inr (json_object ''cust_nm'' ''customer_name''))"

definition demo_json_loads :: "string \<Rightarrow> error + pyobj" where
  "demo_json_loads s =
     (case filter (\<lambda>(k, v). s = json_object k v) demo_answers of
        (k, v) # _ \<Rightarrow> Inr (PDict [(k, PStr v)])
      | [] \<Rightarrow>
          (if s = ''[]'' then Inr (PList [])
           else if s = deep_list
             then Inl (RecursionError ''maximum recursion depth exceeded while decoding a JSON array'')
           else Inl (JSONDecodeError ''Expecting value'')))"

definition demo_str :: "pyobj \<Rightarrow> string" where
  "demo_str v =
     (case v of
        PNone \<Rightarrow> ''None''
      | PNum n \<Rightarrow> (case n of NBool b \<Rightarrow> (if b then ''True'' else ''False'') | _ \<Rightarrow> ''nan'')
      | _ \<Rightarrow> ''[]'')"

definition demo_env :: env where
  "demo_env =
     \<lparr>llm = demo_llm,
      json_loads = demo_json_loads,
      py_str = demo_str,
      convert_column = (\<lambda>toks. None),
      row_values = (\<lambda>cells. cells),
      writable = (\<lambda>path. CHR ''/'' \<notin> set path)\<rparr>"

text \<open>A language model that answers no field.\<close>

definition mute_env :: env where
  "mute_env = demo_env\<lparr>llm := (\<lambda>i p. Inr ''I could not find a matching field.'')\<rparr>"

text \<open>
  The files of the end-to-end scenario: the vendor schema, the target schema with one
  row of descriptions, and the vendor data.
\<close>

definition demo_fs :: filesystem where
  "demo_fs =
     (\<lambda>path. None)
       (''column.csv'' \<mapsto> [(''cust_nm'', [''Acme'']), (''addr1'', [''1 Main St''])],
        ''customers.csv'' \<mapsto>
          [(''customer_name'', [''Full legal name'']),
           (''address_line_1'', [''Street address''])],
        ''vendor.csv'' \<mapsto> [(''cust_nm'', [''Acme'']), (''addr1'', [''1 Main St''])])"

text \<open>
  The state the workflow starts from on these files for the vendor \<^verbatim>\<open>Vendor_A\<close>, and
  the file system with the mapping file that the mapping stage writes there.
\<close>

definition demo_state :: FieldMappingState where
  "demo_state =
     \<lparr>field_maps = [],
      analysis_complete = False,
      etl_complete = False,
      current_vendor = ''Vendor_A'',
      vendor_headers = [''cust_nm'', ''addr1''],
      vendor_samples = [PStr ''Acme'', PStr ''1 Main St''],
      target_headers = [''customer_name'', ''address_line_1''],
      target_samples = [PStr ''Full legal name'', PStr ''Street address''],
      transformed_data = []\<rparr>"

definition demo_fs_mapped :: filesystem where
  "demo_fs_mapped =
     demo_fs(''Vendor_A_mappings.csv'' \<mapsto>
       [(''vendor_field'', [''cust_nm'', ''addr1'']),
        (''target_field'', [''customer_name'', ''address_line_1''])])"

text \<open>
  The same files after a mapping stage that matched no field: the mapping file holds its
  two headers and no row.
\<close>

definition demo_fs_unmatched :: filesystem where
  "demo_fs_unmatched =
     demo_fs(''Vendor_A_mappings.csv'' \<mapsto> [(''vendor_field'', []), (''target_field'', [])])"


text \<open>
  A vendor schema whose two headers differ in case and white space only, with the state
  the workflow starts from on it.
\<close>

definition demo_fs_twice :: filesystem where
  "demo_fs_twice =
     demo_fs(''column.csv'' \<mapsto> [(''Name'', [''Acme'']), (''name '', [''Acme Ltd''])])"

definition demo_state_twice :: FieldMappingState where
  "demo_state_twice =
     demo_state\<lparr>vendor_headers := [''name'', ''name''],
                vendor_samples := [PStr ''Acme'', PStr ''Acme Ltd'']\<rparr>"

text \<open>The scenario with a vendor data file whose first header is not lower-cased.\<close>

definition demo_fs_raw :: filesystem where
  "demo_fs_raw =
     demo_fs(''vendor.csv'' \<mapsto> [(''Cust_Nm'', [''Acme'']), (''addr1'', [''1 Main St''])])"

text \<open>
  The files of \<^verbatim>\<open>Eureka/orch.py\<close>: a vendor file and a customer file with the field
  names in the rows of the column \<^verbatim>\<open>Field Name\<close>.
\<close>

definition demo_fs_eureka :: filesystem where
  "demo_fs_eureka =
     (\<lambda>path. None)
       (''vendor_input_format.csv'' \<mapsto> [(''Field Name'', ['' Cust_Nm '', ''ADDR1''])],
        ''sample.csv'' \<mapsto>
          [(''Field Name'', [''customer_name'', ''address_line_1'']),
           (''Business Definition'', [''Full legal name'', ''Street address''])])"

section \<open>Stripping and lower-casing\<close>

lemma not_isupper_lower_char: "\<not> isupper (lower_char c)"
  by (auto simp: lower_char_def isupper_def Let_def)

lemma lower_char_idem: "lower_char (lower_char c) = lower_char c"
  using not_isupper_lower_char [of c] by (simp add: lower_char_def)

lemma isspace_lower_char: "isspace (lower_char c) = isspace c"
  by (auto simp: lower_char_def isupper_def isspace_def Let_def)

lemma lower_idem: "lower (lower s) = lower s"
  by (simp add: lower_def lower_char_idem)

lemma strip_lower: "strip (lower s) = lower (strip s)"
proof -
  have comp: "isspace \<circ> lower_char = isspace"
    by (simp add: fun_eq_iff isspace_lower_char)
  show ?thesis
    by (simp add: strip_def lower_def dropWhile_map rev_map comp)
qed

lemma strip_idem: "strip (strip s) = strip s"
proof -
  define t where "t = dropWhile isspace s"
  define u where "u = dropWhile isspace (rev t)"
  have "rev t = takeWhile isspace (rev t) @ u"
    by (simp add: u_def)
  then have t_eq: "t = rev u @ rev (takeWhile isspace (rev t))"
    by (metis rev_append rev_rev_ident)
  have "dropWhile isspace (rev u) = rev u"
  proof (cases "rev u = []")
    case True
    then show ?thesis by simp
  next
    case False
    then have "hd (rev u) = hd t"
      using t_eq by (metis hd_append2)
    moreover have "t \<noteq> []"
      using False t_eq by auto
    then have "\<not> isspace (hd t)"
      unfolding t_def by (rule hd_dropWhile)
    ultimately show ?thesis
      using False by (simp add: dropWhile_eq_self_iff)
  qed
  then have "strip (rev u) = rev u"
    by (simp add: strip_def u_def)
  then show ?thesis
    by (simp add: strip_def t_def u_def)
qed

lemma normalized_fixed: "strip (lower (strip h)) = lower (strip h) \<and> lower (lower (strip h)) = lower (strip h)"
  by (simp add: strip_lower strip_idem lower_idem)

lemma lower_cased_lower: "lower_cased (lower s)"
  by (simp add: lower_cased_def lower_def list_all_iff not_isupper_lower_char)

lemma trimmed_strip: "trimmed (strip s)"
proof -
  define t where "t = dropWhile isspace s"
  define u where "u = dropWhile isspace (rev t)"
  have s: "strip s = rev u"
    by (simp add: strip_def t_def u_def)
  have "rev t = takeWhile isspace (rev t) @ u"
    by (simp add: u_def)
  then have t_eq: "t = rev u @ rev (takeWhile isspace (rev t))"
    by (metis rev_append rev_rev_ident)
  show ?thesis
  proof (cases "u = []")
    case True
    then show ?thesis by (simp add: trimmed_def s)
  next
    case False
    then have "\<not> isspace (hd u)"
      unfolding u_def by (rule hd_dropWhile)
    then have l: "\<not> isspace (last (rev u))"
      using False by (simp add: last_rev)
    have "hd (rev u) = hd t"
      using False t_eq by (metis hd_append2 rev_is_Nil_conv)
    moreover have "t \<noteq> []"
      using False t_eq by auto
    then have "\<not> isspace (hd t)"
      unfolding t_def by (rule hd_dropWhile)
    ultimately show ?thesis
      using l by (simp add: trimmed_def s)
  qed
qed

lemma trimmed_lower: "trimmed s \<Longrightarrow> trimmed (lower s)"
  by (auto simp: trimmed_def lower_def hd_map last_map isspace_lower_char)

section \<open>Dictionaries\<close>



lemma keys_setitem: "fst ` set (setitem d k v) = insert k (fst ` set d)"
proof (induction d)
  case Nil
  then show ?case by simp
next
  case (Cons p d)
  obtain k' v' where p: "p = (k', v')"
    by (cases p)
  show ?case
  proof (cases "k' = k")
    case True
    then show ?thesis by (simp add: p)
  next
    case False
    then show ?thesis using Cons.IH by (simp add: p insert_commute)
  qed
qed

lemma distinct_setitem: "distinct (map fst d) \<Longrightarrow> distinct (map fst (setitem d k v))"
proof (induction d)
  case Nil
  then show ?case by simp
next
  case (Cons p d)
  obtain k' v' where p: "p = (k', v')"
    by (cases p)
  show ?case
  proof (cases "k' = k")
    case True
    then show ?thesis using Cons.prems by (simp add: p)
  next
    case False
    then show ?thesis using Cons by (simp add: p keys_setitem)
  qed
qed

lemma keys_dict_of: "fst ` set (dict_of ps d) = fst ` set ps \<union> fst ` set d"
  by (induction ps d rule: dict_of.induct) (simp_all add: keys_setitem)




lemma map_of_dict_None: "k \<notin> fst ` set ps \<Longrightarrow> map_of (dict ps) k = None"
  by (simp add: dict_def keys_dict_of map_of_eq_None_iff)

section \<open>The matching loop\<close>

lemma match_field_outcome:
  "match_field e targets i f fm =
     (case call_outcome e targets i f of
        Matched target \<Rightarrow> Inr (setitem fm f target)
      | Skipped \<Rightarrow> Inr fm
      | Raised err \<Rightarrow> Inl err)"
  by (simp add: match_field_def call_outcome_def
      split: sum.splits error.splits pyobj.splits option.splits)


lemma match_loop_returns:
  "none_raises e targets i fs \<Longrightarrow> \<exists>fm'. match_loop e targets i fs fm = Inr fm'"
proof (induction fs arbitrary: i fm)
  case Nil
  then show ?case by simp
next
  case (Cons f fs)
  then show ?case
    by (cases "call_outcome e targets i f") (simp_all add: match_field_outcome)
qed




lemma keys_match_loop:
  "match_loop e targets i fs fm = Inr fm' \<Longrightarrow>
   fst ` set fm' = fst ` set fm \<union> set (matched_fields e targets i fs)"
proof (induction fs arbitrary: i fm)
  case Nil
  then show ?case by simp
next
  case (Cons f fs)
  show ?case
  proof (cases "call_outcome e targets i f")
    case (Matched target)
    with Cons.prems have "match_loop e targets (Suc i) fs (setitem fm f target) = Inr fm'"
      by (simp add: match_field_outcome)
    from Cons.IH [OF this] show ?thesis
      using Matched by (simp add: keys_setitem)
  next
    case Skipped
    with Cons.prems have "match_loop e targets (Suc i) fs fm = Inr fm'"
      by (simp add: match_field_outcome)
    from Cons.IH [OF this] show ?thesis
      using Skipped by simp
  next
    case (Raised err)
    with Cons.prems show ?thesis
      by (simp add: match_field_outcome)
  qed
qed

lemma matched_fields_subset: "set (matched_fields e targets i fs) \<subseteq> set fs"
proof (induction fs arbitrary: i)
  case Nil
  then show ?case by simp
next
  case (Cons f fs)
  then show ?case
    by (cases "call_outcome e targets i f") (auto simp: subset_insertI2)
qed

lemma distinct_match_loop:
  "match_loop e targets i fs fm = Inr fm' \<Longrightarrow> distinct (map fst fm) \<Longrightarrow>
   distinct (map fst fm')"
proof (induction fs arbitrary: i fm)
  case Nil
  then show ?case by simp
next
  case (Cons f fs)
  show ?case
  proof (cases "call_outcome e targets i f")
    case (Matched target)
    with Cons.prems have "match_loop e targets (Suc i) fs (setitem fm f target) = Inr fm'"
      by (simp add: match_field_outcome)
    moreover have "distinct (map fst (setitem fm f target))"
      using Cons.prems(2) by (rule distinct_setitem)
    ultimately show ?thesis
      by (rule Cons.IH)
  next
    case Skipped
    with Cons.prems have "match_loop e targets (Suc i) fs fm = Inr fm'"
      by (simp add: match_field_outcome)
    then show ?thesis
      using Cons.prems(2) by (rule Cons.IH)
  next
    case (Raised err)
    with Cons.prems show ?thesis
      by (simp add: match_field_outcome)
  qed
qed


section \<open>Files, the mapping stage and the transform\<close>

lemma mapping_file_not_source: "mapping_file_of vendor \<noteq> ''vendor.csv''"
proof
  assume "mapping_file_of vendor = ''vendor.csv''"
  then have "length (mapping_file_of vendor) = length ''vendor.csv''"
    by simp
  then show False
    by (simp add: mapping_file_of_def)
qed

lemma output_file_not_source: "vendor @ ''_transformed.csv'' \<noteq> ''vendor.csv''"
proof
  assume "vendor @ ''_transformed.csv'' = ''vendor.csv''"
  then have "length (vendor @ ''_transformed.csv'') = length ''vendor.csv''"
    by simp
  then show False
    by simp
qed

lemma output_file_not_mapping: "vendor @ ''_transformed.csv'' \<noteq> mapping_file_of vendor"
  by (simp add: mapping_file_of_def)

lemma cell_text_PStr: "cell_text e (PStr s) = s"
  by (simp add: cell_text_def)

lemma cell_text_NaN: "cell_text e (PNum NaN) = []"
  by (simp add: cell_text_def)

lemma read_csv_same: "fs' path = fs path \<Longrightarrow> read_csv e fs' path = read_csv e fs path"
  by (simp add: read_csv_def)

lemma read_csv_exists: "read_csv e fs path = Inr df \<Longrightarrow> fs path \<noteq> None"
  by (auto simp: read_csv_def split: option.splits)

lemma read_csv_Inr:
  "read_csv e fs path = Inr df \<Longrightarrow>
   \<exists>cols. fs path = Some cols \<and> df = map (\<lambda>(h, toks). (h, column_values e toks)) cols"
  by (auto simp: read_csv_def split: option.splits list.splits)

lemma load_mapping_same:
  "fs' path = fs path \<Longrightarrow> load_mapping e fs' path = load_mapping e fs path"
  by (simp add: load_mapping_def read_csv_def)

lemma load_mapping_exists: "load_mapping e fs path = Inr m \<Longrightarrow> fs path \<noteq> None"
  by (auto simp: load_mapping_def dest: read_csv_exists split: sum.splits)

lemma to_csv_Inr:
  "to_csv e fs df path = Inr fs1 \<longleftrightarrow> writable e path \<and> fs1 = fs(path \<mapsto> csv_of e df)"
  by (auto simp: to_csv_def)

lemma to_csv_Inl: "to_csv e fs df path = Inl err \<longleftrightarrow> \<not> writable e path \<and> err = OSError path"
  by (auto simp: to_csv_def)

lemma csv_of_mapping_frame:
  "csv_of e (mapping_frame fm) =
     [(''vendor_field'', map fst fm), (''target_field'', map (\<lambda>(k, v). cell_text e v) fm)]"
proof -
  have ks: "map (cell_text e) (map (\<lambda>(k, v). PStr k) fm) = map fst fm"
    by (induction fm) (auto simp: cell_text_PStr)
  have vs: "map (cell_text e) (map (\<lambda>(k, v). v) fm) = map (\<lambda>(k, v). cell_text e v) fm"
    by (induction fm) auto
  have "csv_of e (mapping_frame fm) =
     [(cell_text e (PStr ''vendor_field''), map (cell_text e) (map (\<lambda>(k, v). PStr k) fm)),
      (cell_text e (PStr ''target_field''), map (cell_text e) (map (\<lambda>(k, v). v) fm))]"
    unfolding csv_of_def mapping_frame_def by simp
  then show ?thesis
    by (simp only: ks vs cell_text_PStr)
qed

lemma analyze_fields_ok:
  assumes "match_loop e (target_dict e state) 0 (vendor_headers state) [] = Inr fm"
    and "writable e (mapping_file_of (current_vendor state))"
  shows "analyze_fields e state fs =
           (Inr (state\<lparr>field_maps := setitem (field_maps state) (current_vendor state) fm,
                       analysis_complete := True\<rparr>),
            fs(mapping_file_of (current_vendor state) \<mapsto> csv_of e (mapping_frame fm)))"
  using assms by (simp add: analyze_fields_def save_mapping_def to_csv_def)

lemma analyze_fields_InrD:
  assumes "analyze_fields e state fs = (Inr state1, fs1)"
  shows "\<exists>fm. match_loop e (target_dict e state) 0 (vendor_headers state) [] = Inr fm \<and>
              writable e (mapping_file_of (current_vendor state)) \<and>
              state1 = state\<lparr>field_maps := setitem (field_maps state) (current_vendor state) fm,
                             analysis_complete := True\<rparr> \<and>
              fs1 = fs(mapping_file_of (current_vendor state) \<mapsto> csv_of e (mapping_frame fm))"
  using assms
  by (auto simp: analyze_fields_def save_mapping_def to_csv_def split: sum.splits if_splits)


lemma analyze_fields_raises:
  "analyze_fields e state fs = (Inl err, fs1) \<Longrightarrow>
   \<not> none_raises e (target_dict e state) 0 (vendor_headers state) \<or>
   \<not> writable e (mapping_file_of (current_vendor state))"
proof (rule ccontr)
  assume a: "analyze_fields e state fs = (Inl err, fs1)"
  assume "\<not> (\<not> none_raises e (target_dict e state) 0 (vendor_headers state) \<or>
   \<not> writable e (mapping_file_of (current_vendor state)))"
  then have nr: "none_raises e (target_dict e state) 0 (vendor_headers state)"
    and w: "writable e (mapping_file_of (current_vendor state))"
    by simp_all
  from match_loop_returns [OF nr] obtain fm where
    "match_loop e (target_dict e state) 0 (vendor_headers state) [] = Inr fm"
    by blast
  from analyze_fields_ok [OF this w] a show False
    by simp
qed


lemma perform_etl_ok:
  assumes "read_csv e fs ''vendor.csv'' = Inr vendor_df"
    and "load_mapping e fs (mapping_file_of (current_vendor state)) = Inr mapping"
    and "writable e (current_vendor state @ ''_transformed.csv'')"
  shows "perform_etl e state fs =
           (Inr (state\<lparr>etl_complete := True,
                       transformed_data := current_vendor state @ ''_transformed.csv''\<rparr>),
            fs(current_vendor state @ ''_transformed.csv'' \<mapsto>
                 csv_of e (rename mapping vendor_df)))"
  using assms read_csv_exists [OF assms(1)] load_mapping_exists [OF assms(2)]
  by (simp add: perform_etl_def Let_def to_csv_def)

lemma perform_etl_unwritable:
  assumes "read_csv e fs ''vendor.csv'' = Inr vendor_df"
    and "load_mapping e fs (mapping_file_of (current_vendor state)) = Inr mapping"
    and "\<not> writable e (current_vendor state @ ''_transformed.csv'')"
  shows "perform_etl e state fs = (Inl (OSError (current_vendor state @ ''_transformed.csv'')), fs)"
  using assms read_csv_exists [OF assms(1)] load_mapping_exists [OF assms(2)]
  by (simp add: perform_etl_def Let_def to_csv_def)

lemma perform_etl_InrD:
  assumes "perform_etl e state fs = (Inr state1, fs1)"
  shows "\<exists>vendor_df mapping.
           read_csv e fs ''vendor.csv'' = Inr vendor_df \<and>
           load_mapping e fs (mapping_file_of (current_vendor state)) = Inr mapping \<and>
           writable e (current_vendor state @ ''_transformed.csv'') \<and>
           state1 = state\<lparr>etl_complete := True,
                          transformed_data := current_vendor state @ ''_transformed.csv''\<rparr> \<and>
           fs1 = fs(current_vendor state @ ''_transformed.csv'' \<mapsto>
                      csv_of e (rename mapping vendor_df))"
  using assms
  by (auto simp: perform_etl_def Let_def to_csv_def split: if_splits sum.splits)

lemma perform_etl_InlD:
  "perform_etl e state fs = (Inl err, fs1) \<Longrightarrow> fs1 = fs"
  by (auto simp: perform_etl_def Let_def split: if_splits sum.splits)

lemma cell_text_cong: "py_str e' = py_str e \<Longrightarrow> cell_text e' = cell_text e"
  by (simp add: cell_text_def fun_eq_iff split: pyobj.splits number.splits)

lemma csv_of_cong: "py_str e' = py_str e \<Longrightarrow> csv_of e' df = csv_of e df"
  by (simp add: csv_of_def cell_text_cong [of e' e])

lemma column_values_cong:
  "convert_column e' = convert_column e \<Longrightarrow> column_values e' = column_values e"
  by (simp add: column_values_def fun_eq_iff)

lemma read_csv_cong:
  assumes "convert_column e' = convert_column e" and same: "fs' path = fs path"
  shows "read_csv e' fs' path = read_csv e fs path"
proof -
  have cv: "column_values e' = column_values e"
    using assms(1) by (rule column_values_cong)
  show ?thesis
    unfolding read_csv_def same cv ..
qed

lemma load_mapping_cong:
  assumes "convert_column e' = convert_column e" and "fs' path = fs path"
  shows "load_mapping e' fs' path = load_mapping e fs path"
proof -
  have "read_csv e' fs' path = read_csv e fs path"
    using assms by (rule read_csv_cong)
  then show ?thesis
    unfolding load_mapping_def by simp
qed

lemma etl_output_eq:
  "etl_output e state fs =
     (if fs ''vendor.csv'' = None then Inl (FileNotFoundError ''vendor.csv'')
      else if fs (mapping_file_of (current_vendor state)) = None
        then Inl (FileNotFoundError (mapping_file_of (current_vendor state)))
      else case read_csv e fs ''vendor.csv'' of
             Inl err \<Rightarrow> Inl err
           | Inr vendor_df \<Rightarrow>
               (case load_mapping e fs (mapping_file_of (current_vendor state)) of
                  Inl err \<Rightarrow> Inl err
                | Inr mapping \<Rightarrow>
                    (if writable e (current_vendor state @ ''_transformed.csv'')
                     then Inr (current_vendor state @ ''_transformed.csv'',
                               Some (csv_of e (rename mapping vendor_df)))
                     else Inl (OSError (current_vendor state @ ''_transformed.csv'')))))"
  by (simp add: etl_output_def perform_etl_def Let_def to_csv_def split: sum.splits)

lemma etl_output_same:
  assumes src: "fs' ''vendor.csv'' = fs ''vendor.csv''"
    and mf: "fs' (mapping_file_of (current_vendor state)) = fs (mapping_file_of (current_vendor state))"
    and cv: "current_vendor state' = current_vendor state"
    and str: "py_str e' = py_str e"
    and conv: "convert_column e' = convert_column e"
    and wr: "writable e' = writable e"
  shows "etl_output e' state' fs' = etl_output e state fs"
proof -
  have r: "read_csv e' fs' ''vendor.csv'' = read_csv e fs ''vendor.csv''"
    using conv src by (rule read_csv_cong)
  have l: "load_mapping e' fs' (mapping_file_of (current_vendor state))
             = load_mapping e fs (mapping_file_of (current_vendor state))"
    using conv mf by (rule load_mapping_cong)
  have c: "csv_of e' = csv_of e"
    using str by (simp add: fun_eq_iff csv_of_cong)
  show ?thesis
    unfolding etl_output_eq cv src mf r l c wr ..
qed

lemma perform_etl_again:
  assumes "perform_etl e state fs = (Inr state1, fs1)"
  shows "perform_etl e state1 fs1 = (Inr state1, fs1)"
proof -
  from perform_etl_InrD [OF assms] obtain vendor_df mapping where
    src: "read_csv e fs ''vendor.csv'' = Inr vendor_df" and
    load: "load_mapping e fs (mapping_file_of (current_vendor state)) = Inr mapping" and
    wr: "writable e (current_vendor state @ ''_transformed.csv'')" and
    st: "state1 = state\<lparr>etl_complete := True, transformed_data := current_vendor state @ ''_transformed.csv''\<rparr>" and
    fs1: "fs1 = fs(current_vendor state @ ''_transformed.csv'' \<mapsto> csv_of e (rename mapping vendor_df))"
    by (elim exE conjE)
  have cv: "current_vendor state1 = current_vendor state"
    unfolding st by simp
  have "fs1 ''vendor.csv'' = fs ''vendor.csv''"
    unfolding fs1 by (rule fun_upd_other) (rule output_file_not_source [symmetric])
  then have "read_csv e fs1 ''vendor.csv'' = read_csv e fs ''vendor.csv''"
    by (rule read_csv_same)
  then have src1: "read_csv e fs1 ''vendor.csv'' = Inr vendor_df"
    using src by simp
  have "fs1 (mapping_file_of (current_vendor state)) = fs (mapping_file_of (current_vendor state))"
    unfolding fs1 by (rule fun_upd_other) (rule output_file_not_mapping [symmetric])
  then have "load_mapping e fs1 (mapping_file_of (current_vendor state))
               = load_mapping e fs (mapping_file_of (current_vendor state))"
    by (rule load_mapping_same)
  then have load1: "load_mapping e fs1 (mapping_file_of (current_vendor state1)) = Inr mapping"
    using load by (simp add: cv)
  have wr1: "writable e (current_vendor state1 @ ''_transformed.csv'')"
    using wr by (simp add: cv)
  have upd: "state1\<lparr>etl_complete := True, transformed_data := current_vendor state1 @ ''_transformed.csv''\<rparr> = state1"
    unfolding cv unfolding st by simp
  have fupd: "fs1(current_vendor state1 @ ''_transformed.csv'' \<mapsto> csv_of e (rename mapping vendor_df)) = fs1"
    unfolding cv fs1 by (rule fun_upd_upd)
  show ?thesis
    unfolding perform_etl_ok [OF src1 load1 wr1] upd fupd ..
qed

lemma rename_empty: "rename [] df = map (\<lambda>(h, cells). (PStr h, cells)) df"
  by (simp add: rename_def)

lemma rename_nth:
  "i < length df \<Longrightarrow>
   rename mapping df ! i =
     (case map_of mapping (PStr (fst (df ! i))) of Some t \<Rightarrow> t | None \<Rightarrow> PStr (fst (df ! i)),
      snd (df ! i))"
  by (simp add: rename_def split_beta)

lemma csv_of_nth:
  "i < length df \<Longrightarrow>
   csv_of e df ! i = (cell_text e (fst (df ! i)), map (cell_text e) (snd (df ! i)))"
  by (simp add: csv_of_def split_beta)

lemma load_mapping_header_only:
  "fs path = Some [(''vendor_field'', []), (''target_field'', [])] \<Longrightarrow>
   load_mapping e fs path = Inr []"
  by (simp add: load_mapping_def read_csv_def getcol_def column_values_def dict_def
      split: option.splits)

section \<open>The workflow\<close>





lemma chain_invoke_perform_etl:
  "chain_invoke e Node_perform_etl state fs = perform_etl e state fs"
proof (cases "perform_etl e state fs")
  case (Pair r fs2)
  then show ?thesis
    by (cases r) (simp_all add: chain_invoke.simps [of e Node_perform_etl] chain_invoke.simps [of e END])
qed

lemma chain_invoke_entry:
  "chain_invoke e entry_point state fs =
     (case analyze_fields e state fs of
        (Inl err, fs1) \<Rightarrow> (Inl err, fs1)
      | (Inr state1, fs1) \<Rightarrow> perform_etl e state1 fs1)"
proof (cases "analyze_fields e state fs")
  case (Pair r fs1)
  then show ?thesis
    by (cases r)
      (simp_all add: entry_point_def chain_invoke.simps [of e Node_analyze_fields]
        chain_invoke_perform_etl)
qed

section \<open>The pipeline\<close>

lemma keys_dict_zip: "fst ` set (dict (zip ks vs)) \<subseteq> set ks"
proof -
  have "fst ` set (zip ks vs) \<subseteq> set ks"
    by (auto dest: set_zip_leftD)
  then show ?thesis
    by (simp add: dict_def keys_dict_of)
qed

lemma PStr_in_column_values: "PStr h \<in> set (column_values e toks) \<Longrightarrow> h \<in> set toks"
  by (auto simp: column_values_def split: option.splits if_splits)

lemma load_saved_mapping:
  assumes "save_mapping e fs vendor fm = Inr fs1"
  shows "load_mapping e fs1 (mapping_file_of vendor) =
           Inr (dict (zip (column_values e (map fst fm))
                          (column_values e (map (\<lambda>(k, v). cell_text e v) fm))))"
proof -
  from assms have fs1: "fs1 = fs(mapping_file_of vendor \<mapsto> csv_of e (mapping_frame fm))"
    by (simp add: save_mapping_def to_csv_Inr)
  have "read_csv e fs1 (mapping_file_of vendor) =
          Inr [(''vendor_field'', column_values e (map fst fm)),
               (''target_field'', column_values e (map (\<lambda>(k, v). cell_text e v) fm))]"
    unfolding fs1 csv_of_mapping_frame by (simp add: read_csv_def)
  then show ?thesis
    by (simp add: load_mapping_def getcol_def)
qed

lemma read_csv_schema_headers:
  "read_csv_schema e fs path = Inr (headers, sample, df) \<Longrightarrow>
   read_csv e fs path = Inr df \<and> headers = map fst df"
  by (auto simp: read_csv_schema_def Let_def split: sum.splits)

lemma initial_state_InrD:
  assumes "initial_state e fs vendor_file target_file vendor_name = Inr state"
  shows "\<exists>vendor_df target_df.
           read_csv e fs vendor_file = Inr vendor_df \<and>
           read_csv e fs target_file = Inr target_df \<and>
           vendor_headers state = map (\<lambda>(h, cells). lower (strip h)) vendor_df \<and>
           target_headers state = map fst target_df \<and>
           current_vendor state = vendor_name \<and>
           field_maps state = [] \<and> \<not> analysis_complete state \<and> \<not> etl_complete state"
proof -
  from assms obtain vh vs vdf th ts tdf where
    v: "read_csv_schema e fs vendor_file = Inr (vh, vs, vdf)" and
    t: "read_csv_schema e fs target_file = Inr (th, ts, tdf)" and
    st: "state = \<lparr>field_maps = [], analysis_complete = False, etl_complete = False,
                   current_vendor = vendor_name,
                   vendor_headers = map (\<lambda>h. lower (strip h)) vh,
                   vendor_samples = vs, target_headers = th, target_samples = ts,
                   transformed_data = []\<rparr>"
    by (auto simp: initial_state_def split: sum.splits prod.splits)
  from read_csv_schema_headers [OF v] have rv: "read_csv e fs vendor_file = Inr vdf"
    and hv: "vh = map fst vdf"
    by simp_all
  from read_csv_schema_headers [OF t] have rt: "read_csv e fs target_file = Inr tdf"
    and ht: "th = map fst tdf"
    by simp_all
  have "vendor_headers state = map (\<lambda>(h, cells). lower (strip h)) vdf"
    by (simp add: st hv split_beta)
  moreover have "target_headers state = map fst tdf"
    by (simp add: st ht)
  ultimately show ?thesis
    using rv rt by (simp add: st)
qed

lemma initial_state_vendor:
  assumes "initial_state e fs vendor_file target_file vendor_name = Inr state"
  shows "current_vendor state = vendor_name \<and>
         (\<forall>h \<in> set (vendor_headers state). lower (strip h) = h)"
proof -
  from initial_state_InrD [OF assms] obtain vendor_df :: "string frame" where
    cv: "current_vendor state = vendor_name"
    and vh: "vendor_headers state = map (\<lambda>(h, cells). lower (strip h)) vendor_df"
    by (elim exE conjE)
  have "lower (strip h) = h" if "h \<in> set (vendor_headers state)" for h
  proof -
    from that obtain x where "h = lower (strip x)"
      unfolding vh by auto
    then show ?thesis
      by (simp only: strip_lower strip_idem lower_idem)
  qed
  with cv show ?thesis
    by blast
qed

lemma loaded_keys_normalized:
  assumes init: "initial_state e fs vendor_file target_file vendor_name = Inr state"
    and an: "analyze_fields e state fs = (Inr state1, fs1)"
    and load: "load_mapping e fs1 (mapping_file_of vendor_name) = Inr m"
    and key: "PStr h \<in> fst ` set m"
  shows "lower (strip h) = h"
proof -
  have cv: "current_vendor state = vendor_name"
    using initial_state_vendor [OF init] by (rule conjunct1)
  from analyze_fields_InrD [OF an] obtain fm where
    loop: "match_loop e (target_dict e state) 0 (vendor_headers state) [] = Inr fm" and
    wr: "writable e (mapping_file_of (current_vendor state))" and
    fs1: "fs1 = fs(mapping_file_of (current_vendor state) \<mapsto> csv_of e (mapping_frame fm))"
    by (elim exE conjE)
  let ?D = "dict (zip (column_values e (map fst fm))
                      (column_values e (map (\<lambda>(k, v). cell_text e v) fm)))"
  have "save_mapping e fs vendor_name fm = Inr fs1"
    using wr by (simp add: save_mapping_def to_csv_Inr fs1 cv)
  then have "load_mapping e fs1 (mapping_file_of vendor_name) = Inr ?D"
    by (rule load_saved_mapping)
  then have "Inr m = (Inr ?D :: error + (pyobj, pyobj) dict)"
    unfolding load .
  then have m: "m = ?D"
    by (rule Inr_inject)
  have "fst ` set ?D \<subseteq> set (column_values e (map fst fm))"
    by (rule keys_dict_zip)
  then have "PStr h \<in> set (column_values e (map fst fm))"
    using key unfolding m by (rule subsetD)
  then have "h \<in> set (map fst fm)"
    by (rule PStr_in_column_values)
  then have "h \<in> fst ` set fm"
    by simp
  then have "h \<in> set (matched_fields e (target_dict e state) 0 (vendor_headers state))"
    unfolding keys_match_loop [OF loop] by simp
  then have "h \<in> set (vendor_headers state)"
    using matched_fields_subset by (rule rev_subsetD)
  then show ?thesis
    using initial_state_vendor [OF init] by blast
qed

lemma generate_mapping_template_InrD:
  assumes "generate_mapping_template e fs vendor_file target_file vendor_name = (Inr out_path, fs2)"
  shows "\<exists>state state1 fs1 state2.
           initial_state e fs vendor_file target_file vendor_name = Inr state \<and>
           analyze_fields e state fs = (Inr state1, fs1) \<and>
           perform_etl e state1 fs1 = (Inr state2, fs2) \<and>
           out_path = transformed_data state2"
proof (cases "initial_state e fs vendor_file target_file vendor_name")
  case (Inl err)
  then show ?thesis
    using assms by (simp add: generate_mapping_template_def)
next
  case (Inr state)
  obtain r fs1 where a: "analyze_fields e state fs = (r, fs1)"
    by (cases "analyze_fields e state fs")
  show ?thesis
  proof (cases r)
    case (Inl err)
    then show ?thesis
      using assms Inr a by (simp add: generate_mapping_template_def chain_invoke_entry)
  next
    case r: (Inr state1)
    obtain r2 fs' where p: "perform_etl e state1 fs1 = (r2, fs')"
      by (cases "perform_etl e state1 fs1")
    show ?thesis
    proof (cases r2)
      case (Inl err)
      then show ?thesis
        using assms Inr a r p by (simp add: generate_mapping_template_def chain_invoke_entry)
    next
      case r2: (Inr state2)
      then have "out_path = transformed_data state2" and "fs2 = fs'"
        using assms Inr a r p by (simp_all add: generate_mapping_template_def chain_invoke_entry)
      then show ?thesis
        using Inr a r p r2 by simp
    qed
  qed
qed

lemma pipeline_output:
  assumes "generate_mapping_template e fs vendor_file target_file vendor_name = (Inr out_path, fs2)"
  shows "\<exists>state state1 fs1 mapping vendor_df.
           initial_state e fs vendor_file target_file vendor_name = Inr state \<and>
           analyze_fields e state fs = (Inr state1, fs1) \<and>
           read_csv e fs ''vendor.csv'' = Inr vendor_df \<and>
           load_mapping e fs1 (mapping_file_of vendor_name) = Inr mapping \<and>
           out_path = vendor_name @ ''_transformed.csv'' \<and>
           fs2 out_path = Some (csv_of e (rename mapping vendor_df))"
proof -
  from generate_mapping_template_InrD [OF assms] obtain state state1 fs1 state2 where
    init: "initial_state e fs vendor_file target_file vendor_name = Inr state" and
    an: "analyze_fields e state fs = (Inr state1, fs1)" and
    etl: "perform_etl e state1 fs1 = (Inr state2, fs2)" and
    out: "out_path = transformed_data state2"
    by (elim exE conjE)
  have cv0: "current_vendor state = vendor_name"
    using initial_state_vendor [OF init] by (rule conjunct1)
  from analyze_fields_InrD [OF an] obtain fm where
    st1: "state1 = state\<lparr>field_maps := setitem (field_maps state) (current_vendor state) fm,
                             analysis_complete := True\<rparr>" and
    fs1: "fs1 = fs(mapping_file_of (current_vendor state) \<mapsto> csv_of e (mapping_frame fm))"
    by (elim exE conjE)
  have cv: "current_vendor state1 = vendor_name"
    unfolding st1 using cv0 by simp
  from perform_etl_InrD [OF etl] obtain vendor_df mapping where
    src: "read_csv e fs1 ''vendor.csv'' = Inr vendor_df" and
    load: "load_mapping e fs1 (mapping_file_of (current_vendor state1)) = Inr mapping" and
    st2: "state2 = state1\<lparr>etl_complete := True,
                          transformed_data := current_vendor state1 @ ''_transformed.csv''\<rparr>" and
    fs2: "fs2 = fs1(current_vendor state1 @ ''_transformed.csv'' \<mapsto>
                      csv_of e (rename mapping vendor_df))"
    by (elim exE conjE)
  have path: "out_path = vendor_name @ ''_transformed.csv''"
    unfolding out st2 cv by simp
  have "fs1 ''vendor.csv'' = fs ''vendor.csv''"
    unfolding fs1 by (rule fun_upd_other) (rule mapping_file_not_source [symmetric])
  then have "read_csv e fs1 ''vendor.csv'' = read_csv e fs ''vendor.csv''"
    by (rule read_csv_same)
  then have src0: "read_csv e fs ''vendor.csv'' = Inr vendor_df"
    using src by simp
  have load0: "load_mapping e fs1 (mapping_file_of vendor_name) = Inr mapping"
    using load unfolding cv .
  have written: "fs2 out_path = Some (csv_of e (rename mapping vendor_df))"
    unfolding fs2 path cv by simp
  show ?thesis
    using init an src0 load0 path written by blast
qed

section \<open>The transform without a mapping\<close>

text \<open>
  C2, as amended. The transform stage raises FileNotFoundError and leaves the file system
  as it was, so that no output file is written, whenever the mapping file of the current
  vendor is absent: the error names \<^verbatim>\<open>vendor.csv\<close> when that file is absent too
  (it is looked for first), and the mapping file otherwise. A transform before any
  mapping stage of the vendor is such a run. A mapping file that holds its two headers
  and no entry is not refused: it is loaded as the empty mapping, and the transform
  writes every column of the source under its own name wherever the output file can be
  written (where it cannot, the exception is the OSError of the write).
\<close>

theorem transform_without_mapping:
  "(fs (mapping_file_of (current_vendor state)) = None \<longrightarrow>
      perform_etl e state fs =
        (Inl (FileNotFoundError
               (if fs ''vendor.csv'' = None then ''vendor.csv''
                else mapping_file_of (current_vendor state))), fs)) \<and>
   (fs (mapping_file_of (current_vendor state)) = Some [(''vendor_field'', []), (''target_field'', [])]
      \<and> read_csv e fs ''vendor.csv'' = Inr vendor_df \<longrightarrow>
      perform_etl e state fs =
        (if writable e (current_vendor state @ ''_transformed.csv'')
         then (Inr (state\<lparr>etl_complete := True,
                          transformed_data := current_vendor state @ ''_transformed.csv''\<rparr>),
               fs(current_vendor state @ ''_transformed.csv'' \<mapsto>
                    csv_of e (map (\<lambda>(h, cells). (PStr h, cells)) vendor_df)))
         else (Inl (OSError (current_vendor state @ ''_transformed.csv'')), fs)))"
proof (intro conjI impI)
  assume "fs (mapping_file_of (current_vendor state)) = None"
  then show "perform_etl e state fs =
        (Inl (FileNotFoundError
               (if fs ''vendor.csv'' = None then ''vendor.csv''
                else mapping_file_of (current_vendor state))), fs)"
    by (simp add: perform_etl_def Let_def)
next
  assume a: "fs (mapping_file_of (current_vendor state)) = Some [(''vendor_field'', []), (''target_field'', [])]
      \<and> read_csv e fs ''vendor.csv'' = Inr vendor_df"
  then have src: "read_csv e fs ''vendor.csv'' = Inr vendor_df"
    by (rule conjunct2)
  from a have "fs (mapping_file_of (current_vendor state))
                 = Some [(''vendor_field'', []), (''target_field'', [])]"
    by (rule conjunct1)
  then have load: "load_mapping e fs (mapping_file_of (current_vendor state)) = Inr []"
    by (rule load_mapping_header_only)
  show "perform_etl e state fs =
        (if writable e (current_vendor state @ ''_transformed.csv'')
         then (Inr (state\<lparr>etl_complete := True,
                          transformed_data := current_vendor state @ ''_transformed.csv''\<rparr>),
               fs(current_vendor state @ ''_transformed.csv'' \<mapsto>
                    csv_of e (map (\<lambda>(h, cells). (PStr h, cells)) vendor_df)))
         else (Inl (OSError (current_vendor state @ ''_transformed.csv'')), fs))"
  proof (cases "writable e (current_vendor state @ ''_transformed.csv'')")
    case True
    show ?thesis
      unfolding perform_etl_ok [OF src load True] rename_empty using True by simp
  next
    case False
    show ?thesis
      unfolding perform_etl_unwritable [OF src load False] using False by simp
  qed
qed

text \<open>
  The theorem at the files of the scenario: without the mapping file the transform
  raises and writes nothing; with the mapping file of no entries it writes the source.
\<close>

theorem transform_without_mapping_witness:
  "demo_fs (mapping_file_of (current_vendor demo_state)) = None \<and>
   fst (perform_etl demo_env demo_state demo_fs) = Inl (FileNotFoundError ''Vendor_A_mappings.csv'') \<and>
   snd (perform_etl demo_env demo_state demo_fs) ''Vendor_A_transformed.csv'' = None \<and>
   demo_fs_unmatched (mapping_file_of (current_vendor demo_state))
     = Some [(''vendor_field'', []), (''target_field'', [])] \<and>
   read_csv demo_env demo_fs_unmatched ''vendor.csv''
     = Inr [(''cust_nm'', [PStr ''Acme'']), (''addr1'', [PStr ''1 Main St''])] \<and>
   snd (perform_etl demo_env demo_state demo_fs_unmatched) ''Vendor_A_transformed.csv''
     = Some [(''cust_nm'', [''Acme'']), (''addr1'', [''1 Main St''])]"
proof -
  have none: "demo_fs (mapping_file_of (current_vendor demo_state)) = None"
    by code_simp
  have header: "demo_fs_unmatched (mapping_file_of (current_vendor demo_state))
     = Some [(''vendor_field'', []), (''target_field'', [])]"
    by code_simp
  have src: "read_csv demo_env demo_fs_unmatched ''vendor.csv''
     = Inr [(''cust_nm'', [PStr ''Acme'']), (''addr1'', [PStr ''1 Main St''])]"
    by code_simp
  have src0: "demo_fs ''vendor.csv'' \<noteq> None"
    by code_simp
  have wr: "writable demo_env (current_vendor demo_state @ ''_transformed.csv'')"
    by code_simp
  note thm1 = transform_without_mapping [where fs = demo_fs and state = demo_state
      and e = demo_env, THEN conjunct1, rule_format, OF none]
  note thm2 = transform_without_mapping [where fs = demo_fs_unmatched and state = demo_state
      and e = demo_env, THEN conjunct2, rule_format, OF conjI [OF header src]]
  have out: "csv_of demo_env [(PStr ''cust_nm'', [PStr ''Acme'']), (PStr ''addr1'', [PStr ''1 Main St''])]
           = [(''cust_nm'', [''Acme'']), (''addr1'', [''1 Main St''])]"
    by code_simp
  have cv: "current_vendor demo_state = ''Vendor_A''"
      "mapping_file_of ''Vendor_A'' = ''Vendor_A_mappings.csv''"
    by code_simp+
  have nout: "demo_fs ''Vendor_A_transformed.csv'' = None"
    by code_simp
  have c2: "fst (perform_etl demo_env demo_state demo_fs)
              = Inl (FileNotFoundError ''Vendor_A_mappings.csv'')"
    unfolding thm1 using src0 by (simp add: cv)
  have c3: "snd (perform_etl demo_env demo_state demo_fs) ''Vendor_A_transformed.csv'' = None"
    unfolding thm1 using nout by simp
  have c6: "snd (perform_etl demo_env demo_state demo_fs_unmatched) ''Vendor_A_transformed.csv''
     = Some [(''cust_nm'', [''Acme'']), (''addr1'', [''1 Main St''])]"
    unfolding thm2 using wr by (simp add: out cv)
  show ?thesis
    by (intro conjI) (rule none, rule c2, rule c3, rule header, rule src, rule c6)
qed

text \<open>
  C2 as stated fails on the mapping file of no entries: it is loaded as the empty
  dictionary, the transform raises nothing and writes the output file.
\<close>

theorem empty_mapping_accepted:
  "demo_fs_unmatched ''Vendor_A_mappings.csv''
     = Some [(''vendor_field'', []), (''target_field'', [])] \<and>
   load_mapping demo_env demo_fs_unmatched ''Vendor_A_mappings.csv'' = Inr [] \<and>
   fst (perform_etl demo_env demo_state demo_fs_unmatched)
     = Inr (demo_state\<lparr>etl_complete := True, transformed_data := ''Vendor_A_transformed.csv''\<rparr>) \<and>
   snd (perform_etl demo_env demo_state demo_fs_unmatched) ''Vendor_A_transformed.csv''
     = Some [(''cust_nm'', [''Acme'']), (''addr1'', [''1 Main St''])]"
  by code_simp

section \<open>The transform twice\<close>

text \<open>
  C8. The transform is a function of the source file, the mapping file and the vendor's
  name alone: two invocations that see the same \<^verbatim>\<open>vendor.csv\<close> and the same
  mapping file for the same vendor, under the same pandas and the same writable paths,
  end alike, with the same exception or with the same output path and the same contents
  written there, whatever else differs in the state, in the other files or in the
  language model. And an invocation that follows a successful one, on the state and the
  files that one left, changes nothing: it writes the output that is already there.
\<close>

theorem transform_idempotent:
  "(fs' ''vendor.csv'' = fs ''vendor.csv'' \<and>
    fs' (mapping_file_of (current_vendor state)) = fs (mapping_file_of (current_vendor state)) \<and>
    current_vendor state' = current_vendor state \<and> py_str e' = py_str e \<and>
    convert_column e' = convert_column e \<and> writable e' = writable e
      \<longrightarrow> etl_output e' state' fs' = etl_output e state fs) \<and>
   (perform_etl e state fs = (Inr state1, fs1)
      \<longrightarrow> perform_etl e state1 fs1 = (Inr state1, fs1))"
proof (intro conjI impI)
  assume "fs' ''vendor.csv'' = fs ''vendor.csv'' \<and>
    fs' (mapping_file_of (current_vendor state)) = fs (mapping_file_of (current_vendor state)) \<and>
    current_vendor state' = current_vendor state \<and> py_str e' = py_str e \<and>
    convert_column e' = convert_column e \<and> writable e' = writable e"
  then show "etl_output e' state' fs' = etl_output e state fs"
    by (intro etl_output_same) simp_all
next
  assume "perform_etl e state fs = (Inr state1, fs1)"
  then show "perform_etl e state1 fs1 = (Inr state1, fs1)"
    by (rule perform_etl_again)
qed

text \<open>
  The theorem at the scenario: a second transform after the first returns the same state
  and leaves the same files, and a run that differs in another file and in the language
  model writes the same output.
\<close>

theorem transform_idempotent_witness:
  "perform_etl demo_env demo_state demo_fs_mapped
     = (Inr (demo_state\<lparr>etl_complete := True, transformed_data := ''Vendor_A_transformed.csv''\<rparr>),
        snd (perform_etl demo_env demo_state demo_fs_mapped)) \<and>
   fst (perform_etl demo_env
          (demo_state\<lparr>etl_complete := True, transformed_data := ''Vendor_A_transformed.csv''\<rparr>)
          (snd (perform_etl demo_env demo_state demo_fs_mapped)))
     = Inr (demo_state\<lparr>etl_complete := True, transformed_data := ''Vendor_A_transformed.csv''\<rparr>) \<and>
   etl_output demo_env demo_state demo_fs_mapped
     = Inr (''Vendor_A_transformed.csv'',
            Some [(''customer_name'', [''Acme'']), (''address_line_1'', [''1 Main St''])]) \<and>
   etl_output mute_env demo_state (demo_fs_mapped(''customers.csv'' := None))
     = Inr (''Vendor_A_transformed.csv'',
            Some [(''customer_name'', [''Acme'']), (''address_line_1'', [''1 Main St''])])"
proof -
  let ?st1 = "demo_state\<lparr>etl_complete := True, transformed_data := ''Vendor_A_transformed.csv''\<rparr>"
  let ?fs1 = "snd (perform_etl demo_env demo_state demo_fs_mapped)"
  have "fst (perform_etl demo_env demo_state demo_fs_mapped) = Inr ?st1"
    by code_simp
  then have run: "perform_etl demo_env demo_state demo_fs_mapped = (Inr ?st1, ?fs1)"
    by (simp add: prod_eq_iff)
  have again: "perform_etl demo_env ?st1 ?fs1 = (Inr ?st1, ?fs1)"
    using transform_idempotent [where e = demo_env and state = demo_state and fs = demo_fs_mapped
        and ?state1.0 = ?st1 and ?fs1.0 = ?fs1, THEN conjunct2] run
    by blast
  have out: "etl_output demo_env demo_state demo_fs_mapped
     = Inr (''Vendor_A_transformed.csv'',
            Some [(''customer_name'', [''Acme'']), (''address_line_1'', [''1 Main St''])])"
    by code_simp
  have same1: "(demo_fs_mapped(''customers.csv'' := None)) ''vendor.csv'' = demo_fs_mapped ''vendor.csv''"
    by code_simp
  have same2: "(demo_fs_mapped(''customers.csv'' := None)) (mapping_file_of (current_vendor demo_state))
         = demo_fs_mapped (mapping_file_of (current_vendor demo_state))"
    by code_simp
  have env: "py_str mute_env = py_str demo_env" "convert_column mute_env = convert_column demo_env"
      "writable mute_env = writable demo_env"
    by (simp_all add: mute_env_def)
  have c2: "fst (perform_etl demo_env ?st1 ?fs1) = Inr ?st1"
    unfolding again by (rule fst_conv)
  have "etl_output mute_env demo_state (demo_fs_mapped(''customers.csv'' := None))
          = etl_output demo_env demo_state demo_fs_mapped"
    using transform_idempotent [where e = demo_env and e' = mute_env and state = demo_state
        and state' = demo_state and fs = demo_fs_mapped
        and fs' = "demo_fs_mapped(''customers.csv'' := None)", THEN conjunct1] same1 same2 env
    by blast
  then have c4: "etl_output mute_env demo_state (demo_fs_mapped(''customers.csv'' := None))
     = Inr (''Vendor_A_transformed.csv'',
            Some [(''customer_name'', [''Acme'']), (''address_line_1'', [''1 Main St''])])"
    by (simp only: out)
  show ?thesis
    by (intro conjI) (rule run, rule c2, rule out, rule c4)
qed

section \<open>Renaming and passing through\<close>






section \<open>One iteration of the matching loop\<close>




section \<open>The entries of the mapping\<close>







section \<open>The order of the stages\<close>






section \<open>The names of the fields\<close>

lemma read_csv_Some:
  "read_csv e fs path = Inr df \<Longrightarrow> fs path = Some cols \<Longrightarrow>
   df = map (\<lambda>(h, toks). (h, column_values e toks)) cols"
  by (auto dest: read_csv_Inr)

lemma map_of_column_values:
  "map_of (map (\<lambda>(h, toks). (h, column_values e toks)) cols) name
     = map_option (column_values e) (map_of cols name)"
  by (induction cols) auto

text \<open>
  C6, as amended. In \<^verbatim>\<open>Orchestrator.py\<close> the vendor fields that the matching loop
  goes over are the headers of the vendor file, each stripped and lower-cased, in the
  order of the file: none of them has white space at an end or an upper-case letter.
  The target fields are the headers of the target file as they are. In
  \<^verbatim>\<open>Eureka/orch.py\<close> nothing is normalized: the vendor fields are the cells of the
  column \<^verbatim>\<open>Field Name\<close> as pandas reads them, which for a column of text are the
  cells of the file themselves, with the missing value for a missing-value token.
\<close>

theorem vendor_names_normalized:
  "(initial_state e fs vendor_file target_file vendor_name = Inr state \<and>
    fs vendor_file = Some vendor_cols \<and> fs target_file = Some target_cols \<longrightarrow>
      vendor_headers state = map (\<lambda>(h, toks). lower (strip h)) vendor_cols \<and>
      (\<forall>h \<in> set (vendor_headers state). trimmed h \<and> lower_cased h) \<and>
      target_headers state = map fst target_cols) \<and>
   (initial_state_eureka e fs vendor_file customer_file vendor_name = Inr state_eureka \<and>
    fs vendor_file = Some cols \<and> map_of cols ''Field Name'' = Some toks \<and>
    convert_column e toks = None \<longrightarrow>
      vendor_fields state_eureka
        = map (\<lambda>t. if t \<in> set na_values then PNum NaN else PStr t) toks)"
proof -
  have first: "vendor_headers state = map (\<lambda>(h, toks). lower (strip h)) vendor_cols \<and>
      (\<forall>h \<in> set (vendor_headers state). trimmed h \<and> lower_cased h) \<and>
      target_headers state = map fst target_cols"
    if init: "initial_state e fs vendor_file target_file vendor_name = Inr state"
      and v: "fs vendor_file = Some vendor_cols" and t: "fs target_file = Some target_cols"
  proof -
    from initial_state_InrD [OF init] obtain vendor_df target_df :: "string frame" where
      rv: "read_csv e fs vendor_file = Inr vendor_df" and
      rt: "read_csv e fs target_file = Inr target_df" and
      vh: "vendor_headers state = map (\<lambda>(h, cells). lower (strip h)) vendor_df" and
      th: "target_headers state = map fst target_df"
      by (elim exE conjE)
    have vdf: "vendor_df = map (\<lambda>(h, toks). (h, column_values e toks)) vendor_cols"
      using rv v by (rule read_csv_Some)
    have tdf: "target_df = map (\<lambda>(h, toks). (h, column_values e toks)) target_cols"
      using rt t by (rule read_csv_Some)
    have a: "vendor_headers state = map (\<lambda>(h, toks). lower (strip h)) vendor_cols"
      unfolding vh vdf by (simp add: split_beta)
    have b: "\<forall>h \<in> set (vendor_headers state). trimmed h \<and> lower_cased h"
    proof
      fix h
      assume "h \<in> set (vendor_headers state)"
      then obtain x where h: "h = lower (strip x)"
        unfolding a by auto
      have "trimmed (strip x)"
        by (rule trimmed_strip)
      then have "trimmed (lower (strip x))"
        by (rule trimmed_lower)
      moreover have "lower_cased (lower (strip x))"
        by (rule lower_cased_lower)
      ultimately show "trimmed h \<and> lower_cased h"
        unfolding h by (rule conjI)
    qed
    have c: "target_headers state = map fst target_cols"
      unfolding th tdf by (simp add: split_beta)
    show ?thesis
      using a b c by (intro conjI)
  qed
  have second: "vendor_fields state_eureka
        = map (\<lambda>t. if t \<in> set na_values then PNum NaN else PStr t) toks"
    if init: "initial_state_eureka e fs vendor_file customer_file vendor_name = Inr state_eureka"
      and v: "fs vendor_file = Some cols" and col: "map_of cols ''Field Name'' = Some toks"
      and conv: "convert_column e toks = None"
  proof -
    from init obtain names where
      rd: "read_vendor_schema e fs vendor_file = Inr names" and
      vf: "vendor_fields state_eureka = names"
      by (auto simp: initial_state_eureka_def split: sum.splits)
    from rd obtain df where
      rv: "read_csv e fs vendor_file = Inr df" and
      gc: "getcol df ''Field Name'' = Some names"
      by (auto simp: read_vendor_schema_def split: sum.splits option.splits)
    have df: "df = map (\<lambda>(h, toks). (h, column_values e toks)) cols"
      using rv v by (rule read_csv_Some)
    have "getcol df ''Field Name'' = Some (column_values e toks)"
      unfolding getcol_def df map_of_column_values col by simp
    then have "names = column_values e toks"
      using gc by simp
    then show ?thesis
      unfolding vf by (simp add: column_values_def conv)
  qed
  show ?thesis
    using first second by blast
qed

text \<open>
  The theorem on the vendor schema with the headers \<^verbatim>\<open>Name\<close> and \<^verbatim>\<open>name\<close> with a
  space after it, which both become \<^verbatim>\<open>name\<close>, and on the files of
  \<^verbatim>\<open>Eureka/orch.py\<close>.
\<close>

theorem vendor_names_normalized_witness:
  "initial_state demo_env demo_fs_twice ''column.csv'' ''customers.csv'' ''Vendor_A''
     = Inr demo_state_twice \<and>
   demo_fs_twice ''column.csv'' = Some [(''Name'', [''Acme'']), (''name '', [''Acme Ltd''])] \<and>
   demo_fs_twice ''customers.csv''
     = Some [(''customer_name'', [''Full legal name'']), (''address_line_1'', [''Street address''])] \<and>
   vendor_headers demo_state_twice = [''name'', ''name''] \<and>
   target_headers demo_state_twice = [''customer_name'', ''address_line_1''] \<and>
   demo_fs_eureka ''vendor_input_format.csv'' = Some [(''Field Name'', ['' Cust_Nm '', ''ADDR1''])] \<and>
   (\<exists>state_eureka.
      initial_state_eureka demo_env demo_fs_eureka ''vendor_input_format.csv'' ''sample.csv''
        ''Vendor_A'' = Inr state_eureka \<and>
      vendor_fields state_eureka = [PStr '' Cust_Nm '', PStr ''ADDR1''])"
proof -
  let ?vcols = "[(''Name'', [''Acme'']), (''name '', [''Acme Ltd''])]"
  let ?tcols = "[(''customer_name'', [''Full legal name'']), (''address_line_1'', [''Street address''])]"
  let ?cols = "[(''Field Name'', ['' Cust_Nm '', ''ADDR1''])]"
  have init: "initial_state demo_env demo_fs_twice ''column.csv'' ''customers.csv'' ''Vendor_A''
     = Inr demo_state_twice"
    by code_simp
  have v: "demo_fs_twice ''column.csv'' = Some ?vcols"
    by code_simp
  have t: "demo_fs_twice ''customers.csv'' = Some ?tcols"
    by code_simp
  have n1: "lower (strip ''Name'') = ''name''" and n2: "lower (strip ''name '') = ''name''"
    by code_simp+
  note first = vendor_names_normalized [where e = demo_env and fs = demo_fs_twice
      and vendor_file = "''column.csv''" and target_file = "''customers.csv''"
      and vendor_name = "''Vendor_A''" and state = demo_state_twice and vendor_cols = ?vcols
      and target_cols = ?tcols, THEN conjunct1, rule_format, OF conjI [OF init conjI [OF v t]]]
  have vh: "vendor_headers demo_state_twice = [''name'', ''name'']"
    using first [THEN conjunct1] by (simp add: n1 n2)
  have th: "target_headers demo_state_twice = [''customer_name'', ''address_line_1'']"
    using first [THEN conjunct2, THEN conjunct2] by simp
  have "\<not> isl (initial_state_eureka demo_env demo_fs_eureka ''vendor_input_format.csv''
        ''sample.csv'' ''Vendor_A'')"
    by code_simp
  then obtain state_eureka where
    inite: "initial_state_eureka demo_env demo_fs_eureka ''vendor_input_format.csv''
        ''sample.csv'' ''Vendor_A'' = Inr state_eureka"
    by (cases "initial_state_eureka demo_env demo_fs_eureka ''vendor_input_format.csv''
        ''sample.csv'' ''Vendor_A''") simp_all
  have ve: "demo_fs_eureka ''vendor_input_format.csv'' = Some ?cols"
    by code_simp
  have col: "map_of ?cols ''Field Name'' = Some ['' Cust_Nm '', ''ADDR1'']"
    by simp
  have conv: "convert_column demo_env ['' Cust_Nm '', ''ADDR1''] = None"
    by (simp add: demo_env_def)
  have na: "'' Cust_Nm '' \<notin> set na_values" "''ADDR1'' \<notin> set na_values"
    by code_simp+
  note second = vendor_names_normalized [where e = demo_env and fs = demo_fs_eureka
      and vendor_file = "''vendor_input_format.csv''" and customer_file = "''sample.csv''"
      and vendor_name = "''Vendor_A''" and state_eureka = state_eureka and cols = ?cols
      and toks = "['' Cust_Nm '', ''ADDR1'']", THEN conjunct2, rule_format,
      OF conjI [OF inite conjI [OF ve conjI [OF col conv]]]]
  have "vendor_fields state_eureka = [PStr '' Cust_Nm '', PStr ''ADDR1'']"
    unfolding second using na by simp
  with inite have ex: "\<exists>state_eureka.
      initial_state_eureka demo_env demo_fs_eureka ''vendor_input_format.csv'' ''sample.csv''
        ''Vendor_A'' = Inr state_eureka \<and>
      vendor_fields state_eureka = [PStr '' Cust_Nm '', PStr ''ADDR1'']"
    by blast
  show ?thesis
    by (intro conjI) (rule init, rule v, rule t, rule vh, rule th, rule ve, rule ex)
qed

text \<open>
  C6 as stated fails on \<^verbatim>\<open>Eureka/orch.py\<close>: the vendor fields that its prompt is
  built from are the names of the vendor file with their white space and their
  upper-case letters, not the stripped, lower-cased names.
\<close>

theorem eureka_vendor_fields_verbatim:
  "demo_fs_eureka ''vendor_input_format.csv'' = Some [(''Field Name'', ['' Cust_Nm '', ''ADDR1''])] \<and>
   read_vendor_schema demo_env demo_fs_eureka ''vendor_input_format.csv''
     = Inr [PStr '' Cust_Nm '', PStr ''ADDR1''] \<and>
   initial_state_eureka demo_env demo_fs_eureka ''vendor_input_format.csv'' ''sample.csv''
       ''Vendor_A''
     = Inr \<lparr>field_maps_eureka = [],
            analysis_complete_eureka = False,
            current_vendor_eureka = ''Vendor_A'',
            vendor_fields = [PStr '' Cust_Nm '', PStr ''ADDR1''],
            target_descriptions =
              [(PStr ''customer_name'', PStr ''Full legal name''),
               (PStr ''address_line_1'', PStr ''Street address'')]\<rparr> \<and>
   lower (strip '' Cust_Nm '') = ''cust_nm'' \<and> lower (strip ''ADDR1'') = ''addr1'' \<and>
   \<not> trimmed '' Cust_Nm '' \<and> \<not> lower_cased '' Cust_Nm '' \<and> \<not> lower_cased ''ADDR1''"
  by code_simp

section \<open>The mapping file written and read\<close>







section \<open>The source of the transform\<close>

text \<open>
  C9. In a run of the pipeline that ends well, the keys of the mapping that the transform
  loads are stripped and lower-cased names, while the columns of the source are renamed
  by the headers as \<^verbatim>\<open>vendor.csv\<close> has them. So a source column whose header differs
  from its stripped, lower-cased form is written under that header, with its cells as
  pandas reads and writes them, whether or not the mapping has an entry for the stripped,
  lower-cased form.
\<close>

theorem raw_header_not_renamed:
  assumes run: "generate_mapping_template e fs vendor_file target_file vendor_name
                  = (Inr out_path, fs2)"
    and src: "fs ''vendor.csv'' = Some cols"
    and i: "i < length cols"
    and raw: "lower (strip (fst (cols ! i))) \<noteq> fst (cols ! i)"
  shows "\<exists>state state1 fs1 mapping out.
           initial_state e fs vendor_file target_file vendor_name = Inr state \<and>
           analyze_fields e state fs = (Inr state1, fs1) \<and>
           load_mapping e fs1 (mapping_file_of vendor_name) = Inr mapping \<and>
           (\<forall>k. PStr k \<in> fst ` set mapping \<longrightarrow> lower (strip k) = k) \<and>
           fs2 out_path = Some out \<and> length out = length cols \<and>
           fst (out ! i) = fst (cols ! i) \<and>
           snd (out ! i) = map (cell_text e) (column_values e (snd (cols ! i)))"
proof -
  from pipeline_output [OF run] obtain state state1 fs1 mapping vendor_df where
    init: "initial_state e fs vendor_file target_file vendor_name = Inr state" and
    an: "analyze_fields e state fs = (Inr state1, fs1)" and
    rd: "read_csv e fs ''vendor.csv'' = Inr vendor_df" and
    load: "load_mapping e fs1 (mapping_file_of vendor_name) = Inr mapping" and
    written: "fs2 out_path = Some (csv_of e (rename mapping vendor_df))"
    by (elim exE conjE)
  have df: "vendor_df = map (\<lambda>(h, toks). (h, column_values e toks)) cols"
    using rd src by (rule read_csv_Some)
  have keys: "lower (strip k) = k" if "PStr k \<in> fst ` set mapping" for k
    using init an load that by (rule loaded_keys_normalized)
  let ?h = "fst (cols ! i)"
  have idf: "i < length vendor_df"
    using i by (simp add: df)
  have hdf: "fst (vendor_df ! i) = ?h"
    using i by (simp add: df split_beta)
  have cdf: "snd (vendor_df ! i) = column_values e (snd (cols ! i))"
    using i by (simp add: df split_beta)
  have "PStr ?h \<notin> fst ` set mapping"
    using keys raw by blast
  then have none: "map_of mapping (PStr ?h) = None"
    by (simp add: map_of_eq_None_iff)
  have "i < length (rename mapping vendor_df)"
    using idf by (simp add: rename_def)
  then have "csv_of e (rename mapping vendor_df) ! i
               = (cell_text e (fst (rename mapping vendor_df ! i)),
                  map (cell_text e) (snd (rename mapping vendor_df ! i)))"
    by (rule csv_of_nth)
  then have header: "fst (csv_of e (rename mapping vendor_df) ! i) = ?h"
    and cells: "snd (csv_of e (rename mapping vendor_df) ! i)
                  = map (cell_text e) (column_values e (snd (cols ! i)))"
    by (simp_all add: rename_nth [OF idf] hdf cdf none cell_text_PStr)
  have len: "length (csv_of e (rename mapping vendor_df)) = length cols"
    by (simp add: csv_of_def rename_def df)
  have keys': "\<forall>k. PStr k \<in> fst ` set mapping \<longrightarrow> lower (strip k) = k"
    using keys by blast
  show ?thesis
    using init an load keys' written len header cells by blast
qed

text \<open>
  The theorem on the source with the header \<^verbatim>\<open>Cust_Nm\<close>: the mapping has an entry for
  \<^verbatim>\<open>cust_nm\<close>, and the column is written as \<^verbatim>\<open>Cust_Nm\<close>.
\<close>

theorem raw_header_not_renamed_witness:
  "generate_mapping_template demo_env demo_fs_raw ''column.csv'' ''customers.csv'' ''Vendor_A''
     = (Inr ''Vendor_A_transformed.csv'',
        snd (generate_mapping_template demo_env demo_fs_raw ''column.csv'' ''customers.csv''
               ''Vendor_A'')) \<and>
   demo_fs_raw ''vendor.csv'' = Some [(''Cust_Nm'', [''Acme'']), (''addr1'', [''1 Main St''])] \<and>
   lower (strip ''Cust_Nm'') = ''cust_nm'' \<and>
   load_mapping demo_env
       (snd (generate_mapping_template demo_env demo_fs_raw ''column.csv'' ''customers.csv''
               ''Vendor_A''))
       ''Vendor_A_mappings.csv''
     = Inr [(PStr ''cust_nm'', PStr ''customer_name''), (PStr ''addr1'', PStr ''address_line_1'')] \<and>
   (\<exists>out. snd (generate_mapping_template demo_env demo_fs_raw ''column.csv'' ''customers.csv''
                  ''Vendor_A'') ''Vendor_A_transformed.csv'' = Some out \<and>
          fst (out ! 0) = ''Cust_Nm'') \<and>
   snd (generate_mapping_template demo_env demo_fs_raw ''column.csv'' ''customers.csv''
          ''Vendor_A'') ''Vendor_A_transformed.csv''
     = Some [(''Cust_Nm'', [''Acme'']), (''address_line_1'', [''1 Main St''])]"
proof -
  let ?fs2 = "snd (generate_mapping_template demo_env demo_fs_raw ''column.csv'' ''customers.csv''
               ''Vendor_A'')"
  let ?cols = "[(''Cust_Nm'', [''Acme'']), (''addr1'', [''1 Main St''])]"
  have "fst (generate_mapping_template demo_env demo_fs_raw ''column.csv'' ''customers.csv''
               ''Vendor_A'') = Inr ''Vendor_A_transformed.csv''"
    by code_simp
  then have run: "generate_mapping_template demo_env demo_fs_raw ''column.csv'' ''customers.csv''
                    ''Vendor_A'' = (Inr ''Vendor_A_transformed.csv'', ?fs2)"
    by (simp add: prod_eq_iff)
  have src: "demo_fs_raw ''vendor.csv'' = Some ?cols"
    by code_simp
  have norm: "lower (strip ''Cust_Nm'') = ''cust_nm''"
    by code_simp
  have i: "0 < length ?cols"
    by simp
  have raw: "lower (strip (fst (?cols ! 0))) \<noteq> fst (?cols ! 0)"
    by (simp add: norm)
  have loaded: "load_mapping demo_env ?fs2 ''Vendor_A_mappings.csv''
     = Inr [(PStr ''cust_nm'', PStr ''customer_name''), (PStr ''addr1'', PStr ''address_line_1'')]"
    by code_simp
  from raw_header_not_renamed [OF run src i raw]
  obtain out where "?fs2 ''Vendor_A_transformed.csv'' = Some out"
    and "fst (out ! 0) = fst (?cols ! 0)"
    by (elim exE conjE)
  then have ex: "\<exists>out. ?fs2 ''Vendor_A_transformed.csv'' = Some out \<and> fst (out ! 0) = ''Cust_Nm''"
    by simp
  have all: "?fs2 ''Vendor_A_transformed.csv''
     = Some [(''Cust_Nm'', [''Acme'']), (''address_line_1'', [''1 Main St''])]"
    by code_simp
  show ?thesis
    by (intro conjI) (rule run, rule src, rule norm, rule loaded, rule ex, rule all)
qed

text \<open>
  C10. The transform reads its source from \<^verbatim>\<open>vendor.csv\<close>, whatever the
  \<^verbatim>\<open>vendor_file\<close> argument of \<^verbatim>\<open>generate_mapping_template\<close> is: two runs on the
  same files that differ in that argument only, and end well, write to the same path,
  and the cells of every output column are in both runs the cells of the column of
  \<^verbatim>\<open>vendor.csv\<close> at that position, as pandas reads and writes them. The argument
  can change the headers of the output (through the mapping that is inferred), never
  the data.
\<close>

theorem transform_source_is_fixed:
  assumes run: "generate_mapping_template e fs vendor_file target_file vendor_name
                  = (Inr out_path, fs2)"
    and run': "generate_mapping_template e fs vendor_file' target_file vendor_name
                  = (Inr out_path', fs2')"
  shows "\<exists>cols out out'.
           fs ''vendor.csv'' = Some cols \<and>
           out_path' = out_path \<and>
           fs2 out_path = Some out \<and> fs2' out_path' = Some out' \<and>
           map snd out = map (\<lambda>(h, toks). map (cell_text e) (column_values e toks)) cols \<and>
           map snd out' = map snd out"
proof -
  have cells: "map snd (csv_of e (rename m df)) = map (\<lambda>(h, cells). map (cell_text e) cells) df"
    for m and df :: "string frame"
    by (induction df) (simp_all add: csv_of_def rename_def split_beta)
  from pipeline_output [OF run] obtain mapping vendor_df where
    rd: "read_csv e fs ''vendor.csv'' = Inr vendor_df" and
    path: "out_path = vendor_name @ ''_transformed.csv''" and
    written: "fs2 out_path = Some (csv_of e (rename mapping vendor_df))"
    by (elim exE conjE)
  from pipeline_output [OF run'] obtain mapping' vendor_df' where
    rd': "read_csv e fs ''vendor.csv'' = Inr vendor_df'" and
    path': "out_path' = vendor_name @ ''_transformed.csv''" and
    written': "fs2' out_path' = Some (csv_of e (rename mapping' vendor_df'))"
    by (elim exE conjE)
  have same: "vendor_df' = vendor_df"
    using rd rd' by simp
  from read_csv_Inr [OF rd] obtain cols where
    src: "fs ''vendor.csv'' = Some cols" and
    df: "vendor_df = map (\<lambda>(h, toks). (h, column_values e toks)) cols"
    by (elim exE conjE)
  have c1: "map snd (csv_of e (rename mapping vendor_df))
          = map (\<lambda>(h, toks). map (cell_text e) (column_values e toks)) cols"
    unfolding cells df by (simp add: split_beta)
  have c2: "map snd (csv_of e (rename mapping' vendor_df))
          = map snd (csv_of e (rename mapping vendor_df))"
    by (simp only: cells)
  have p: "out_path' = out_path"
    unfolding path path' ..
  show ?thesis
    using src p written written' c1 c2 unfolding same by blast
qed

text \<open>
  The theorem on two runs, one with the vendor schema and one with the target schema as
  \<^verbatim>\<open>vendor_file\<close>: the headers of the outputs differ, the rows are the same.
\<close>

theorem transform_source_is_fixed_witness:
  "generate_mapping_template demo_env demo_fs ''column.csv'' ''customers.csv'' ''Vendor_A''
     = (Inr ''Vendor_A_transformed.csv'',
        snd (generate_mapping_template demo_env demo_fs ''column.csv'' ''customers.csv''
               ''Vendor_A'')) \<and>
   generate_mapping_template demo_env demo_fs ''customers.csv'' ''customers.csv'' ''Vendor_A''
     = (Inr ''Vendor_A_transformed.csv'',
        snd (generate_mapping_template demo_env demo_fs ''customers.csv'' ''customers.csv''
               ''Vendor_A'')) \<and>
   snd (generate_mapping_template demo_env demo_fs ''column.csv'' ''customers.csv'' ''Vendor_A'')
       ''Vendor_A_transformed.csv''
     = Some [(''customer_name'', [''Acme'']), (''address_line_1'', [''1 Main St''])] \<and>
   snd (generate_mapping_template demo_env demo_fs ''customers.csv'' ''customers.csv'' ''Vendor_A'')
       ''Vendor_A_transformed.csv''
     = Some [(''cust_nm'', [''Acme'']), (''addr1'', [''1 Main St''])] \<and>
   (\<exists>out out'.
      snd (generate_mapping_template demo_env demo_fs ''column.csv'' ''customers.csv'' ''Vendor_A'')
        ''Vendor_A_transformed.csv'' = Some out \<and>
      snd (generate_mapping_template demo_env demo_fs ''customers.csv'' ''customers.csv'' ''Vendor_A'')
        ''Vendor_A_transformed.csv'' = Some out' \<and>
      map snd out' = map snd out)"
proof -
  let ?g1 = "generate_mapping_template demo_env demo_fs ''column.csv'' ''customers.csv'' ''Vendor_A''"
  let ?g2 = "generate_mapping_template demo_env demo_fs ''customers.csv'' ''customers.csv'' ''Vendor_A''"
  have "fst ?g1 = Inr ''Vendor_A_transformed.csv''"
    by code_simp
  then have run1: "?g1 = (Inr ''Vendor_A_transformed.csv'', snd ?g1)"
    by (simp add: prod_eq_iff)
  have "fst ?g2 = Inr ''Vendor_A_transformed.csv''"
    by code_simp
  then have run2: "?g2 = (Inr ''Vendor_A_transformed.csv'', snd ?g2)"
    by (simp add: prod_eq_iff)
  have out1: "snd ?g1 ''Vendor_A_transformed.csv''
     = Some [(''customer_name'', [''Acme'']), (''address_line_1'', [''1 Main St''])]"
    by code_simp
  have out2: "snd ?g2 ''Vendor_A_transformed.csv''
     = Some [(''cust_nm'', [''Acme'']), (''addr1'', [''1 Main St''])]"
    by code_simp
  from transform_source_is_fixed [OF run1 run2]
  have ex: "\<exists>out out'. snd ?g1 ''Vendor_A_transformed.csv'' = Some out \<and>
          snd ?g2 ''Vendor_A_transformed.csv'' = Some out' \<and> map snd out' = map snd out"
    by blast
  show ?thesis
    by (intro conjI) (rule run1, rule run2, rule out1, rule out2, rule ex)
qed

end
